theory Spec2Isabelle
  imports Complex_Main "HOL-Library.Log_Nat" "HOL-Library.Sublist"
begin

section \<open>Python values used by the core\<close>

text \<open>
  The exceptions the core raises, as values. \<open>ScopeError\<close>, \<open>EngineError\<close> and
  \<open>ValidationError\<close> are the classes of \<^verbatim>\<open>synth/scope.py\<close>, \<^verbatim>\<open>synth/engine.py\<close> and
  \<^verbatim>\<open>synth/validation.py\<close>; \<open>ScopeError\<close> carries the fraction its message prints,
  \<open>EngineError\<close> its message, \<open>ValidationError\<close> its path and its message.
  \<open>OverflowError\<close> and \<open>ValueError\<close> are the built-in exceptions that
  \<^verbatim>\<open>date + timedelta\<close>, \<^verbatim>\<open>datetime + timedelta\<close>, \<^verbatim>\<open>time(h, m, s)\<close> and
  \<^verbatim>\<open>Random.randint\<close> raise; the core does not catch them.
\<close>

datatype error =
    ScopeError rat
  | EngineError string
  | ValidationError string string
  | OverflowError
  | ValueError

text \<open>
  A \<^verbatim>\<open>tzinfo\<close> object: \<^verbatim>\<open>timezone.utc\<close>, a \<^verbatim>\<open>ZoneInfo(name)\<close>, or the fixed offset
  (in seconds) that \<^verbatim>\<open>datetime.fromisoformat\<close> attaches to a commit date. A
  \<^verbatim>\<open>ZoneInfo\<close> object holds the rule of its zone as the time zone database gives it: the
  UTC offset (in seconds) before its first transition, and its transitions in order, each
  the wall-clock reading from which the next offset applies and that offset. The
  datetimes of the core all have \<^verbatim>\<open>fold=0\<close>: a reading that a transition skips keeps
  the offset before it, and a reading that a transition repeats is its first occurrence.
  Two \<^verbatim>\<open>ZoneInfo\<close> objects of one name are one object (the class caches them).
\<close>

datatype tzinfo = UTC | ZoneInfo string int "(int \<times> int) list" | FixedOffset int

text \<open>
  An aware \<^verbatim>\<open>datetime\<close> at the resolution the core works at (whole seconds: Git dates
  and every \<^verbatim>\<open>time(h, m, s)\<close> and \<^verbatim>\<open>timedelta(minutes, seconds)\<close> of the engine have no
  microseconds). \<open>dt_wall\<close> is the wall-clock reading in its own zone, counted in seconds:
  \<^verbatim>\<open>date().toordinal() * 86400 + hour * 3600 + minute * 60 + second\<close>.
\<close>

record datetime =
  dt_wall :: int
  dt_tzinfo :: tzinfo

text \<open>The frozen dataclass \<^verbatim>\<open>Commit\<close> of \<^verbatim>\<open>synth/repo.py\<close>.\<close>

record commit =
  hash :: string
  author_date :: datetime
  committer_date :: datetime
  index :: int
  subject :: string
  author_name :: string
  author_email :: string
  committer_name :: string
  committer_email :: string
  refs :: string

section \<open>Scope selection (\<^verbatim>\<open>synth/scope.py\<close>)\<close>

subsection \<open>Float arithmetic\<close>

text \<open>
  A finite Python \<^verbatim>\<open>float\<close> is an IEEE 754 binary64 number; the model holds its exact value
  as a rational. (\<^verbatim>\<open>nan\<close> and the infinities fail the range check of \<^verbatim>\<open>apply_scope\<close>
  and raise \<open>ScopeError\<close> like every other value outside the range.)
  \<open>fl_round x\<close> is the binary64 number nearest to \<open>x\<close>, ties to the even significand:
  the result of every float operation whose exact result is \<open>x\<close>, and of \<^verbatim>\<open>float(n)\<close>
  for an integer \<open>n\<close>. \<open>fl_exponent x\<close> is \<open>\<lfloor>log\<^sub>2 x\<rfloor>\<close> for positive \<open>x\<close>; below
  \<open>2\<^sup>-\<^sup>1\<^sup>0\<^sup>2\<^sup>2\<close> the spacing is that of the subnormal numbers. Overflow to infinity is not
  modelled: the products of \<^verbatim>\<open>apply_scope\<close> are bounded by the length of a list.
\<close>

definition fl_exponent :: "rat \<Rightarrow> int" where
  "fl_exponent x =
     (let (p, q) = quotient_of x; d = bitlen p - bitlen q
      in if 2 powi d \<le> x then d else d - 1)"

definition round_half_even :: "rat \<Rightarrow> int" where
  "round_half_even q =
     (let n = \<lfloor>q\<rfloor>; r = q - of_int n
      in if r < 1 / 2 then n else if 1 / 2 < r then n + 1 else if even n then n else n + 1)"

definition fl_round :: "rat \<Rightarrow> rat" where
  "fl_round x =
     (if x = 0 then 0
      else let e = max (fl_exponent \<bar>x\<bar>) (- 1022); u = 2 powi (e - 52)
           in sgn x * of_int (round_half_even (\<bar>x\<bar> / u)) * u)"

text \<open>\<^verbatim>\<open>x * n\<close> for a float \<open>x\<close> and an int \<open>n\<close>: \<open>n\<close> is converted, then the product rounded.\<close>

definition fl_mul_int :: "rat \<Rightarrow> int \<Rightarrow> rat" where
  "fl_mul_int x n = fl_round (x * fl_round (of_int n))"

subsection \<open>List slices\<close>

text \<open>
  Python clamps the bounds of a slice: a negative bound counts from the end, and a bound
  outside the list is moved to its nearest end.
\<close>

definition slice_index :: "nat \<Rightarrow> int \<Rightarrow> nat" where
  "slice_index n i = (if i < 0 then nat (max 0 (int n + i)) else min n (nat i))"

definition slice_to :: "'a list \<Rightarrow> int \<Rightarrow> 'a list" where
  "slice_to xs i = take (slice_index (length xs) i) xs"

definition slice_from :: "'a list \<Rightarrow> int \<Rightarrow> 'a list" where
  "slice_from xs i = drop (slice_index (length xs) i) xs"

subsection \<open>\<^verbatim>\<open>apply_scope\<close>\<close>

definition apply_scope :: "commit list \<Rightarrow> rat \<Rightarrow> error + (commit list \<times> commit list)" where
  "apply_scope commits fraction =
     (if \<not> (- 1 \<le> fraction \<and> fraction \<le> 1) then Inl (ScopeError fraction)
      else let total = int (length commits) in
        if total = 0 \<or> fraction = 0 then Inr ([], commits)
        else let k = \<lfloor>fl_mul_int \<bar>fraction\<bar> total\<rfloor> in
          if k = 0 then Inr ([], commits)
          else if fraction > 0 then Inr (slice_to commits k, slice_from commits k)
          else Inr (slice_from commits (total - k), slice_to commits (total - k)))"

section \<open>Configuration (\<^verbatim>\<open>synth/config.py\<close>)\<close>

text \<open>
  A value that \<^verbatim>\<open>yaml.safe_load\<close> puts into a configuration section, as far as the
  validator tells values apart: \<^verbatim>\<open>None\<close>, a \<^verbatim>\<open>bool\<close>, an \<^verbatim>\<open>int\<close> that is not a
  \<^verbatim>\<open>bool\<close>, a \<^verbatim>\<open>str\<close>, a mapping (its items with a string key, the only ones
  \<^verbatim>\<open>.get("...")\<close> can find), or anything else (a float, a list, a date). Strings are
  ASCII text.
\<close>

datatype yaml =
    YNull
  | YBool bool
  | YInt int
  | YStr string
  | YMap "(string \<times> yaml) list"
  | YOther

type_synonym section_map = "(string \<times> yaml) list"

text \<open>The frozen dataclasses \<^verbatim>\<open>TimestampConfig\<close>, \<^verbatim>\<open>ScopeConfig\<close> and \<^verbatim>\<open>Config\<close>.\<close>

record TimestampConfig =
  mode :: string

record ScopeConfig =
  fraction :: rat

record Config =
  timestamp :: TimestampConfig
  scope :: ScopeConfig
  calendar :: "section_map option"
  work_patterns :: "section_map option"
  randomness :: "section_map option"

section \<open>Semantic validation (\<^verbatim>\<open>synth/validation.py\<close>)\<close>

subsection \<open>Library functions\<close>

text \<open>
  The library calls whose results the validator depends on and whose code is not the
  repository's are parameters of the model:
  \<^item> \<open>strptime_date s\<close> is \<^verbatim>\<open>datetime.strptime(s, "%Y-%m-%d").date()\<close> as the date's
    proleptic Gregorian ordinal (\<^verbatim>\<open>toordinal()\<close>), or \<open>None\<close> where it raises
    \<^verbatim>\<open>ValueError\<close>;
  \<^item> \<open>int_of_str s\<close> is \<^verbatim>\<open>int(s)\<close>, or \<open>None\<close> where it raises \<^verbatim>\<open>ValueError\<close>;
  \<^item> \<open>zone_info s\<close> says how \<^verbatim>\<open>ZoneInfo(s)\<close> ends: it returns the zone (with its first
    offset and its transitions), raises \<^verbatim>\<open>ZoneInfoNotFoundError\<close>, or raises another
    exception.
\<close>

datatype zone_lookup = ZoneFound int "(int \<times> int) list" | ZoneNotFound | ZoneFailed

record pylib =
  strptime_date :: "string \<Rightarrow> int option"
  int_of_str :: "string \<Rightarrow> int option"
  zone_info :: "string \<Rightarrow> zone_lookup"

text \<open>\<^verbatim>\<open>str.strip()\<close>, \<^verbatim>\<open>str.upper()\<close>, \<^verbatim>\<open>str.split(sep)\<close> and \<^verbatim>\<open>str(n)\<close> on ASCII text.\<close>

definition is_space :: "char \<Rightarrow> bool" where
  "is_space c = ((of_char c :: nat) \<in> {9, 10, 11, 12, 13, 28, 29, 30, 31, 32})"

definition str_strip :: "string \<Rightarrow> string" where
  "str_strip s = rev (dropWhile is_space (rev (dropWhile is_space s)))"

definition upper_char :: "char \<Rightarrow> char" where
  "upper_char c =
     (let n = (of_char c :: nat) in if 97 \<le> n \<and> n \<le> 122 then char_of (n - 32) else c)"

definition str_upper :: "string \<Rightarrow> string" where
  "str_upper s = map upper_char s"

fun str_split :: "char \<Rightarrow> string \<Rightarrow> string list" where
  "str_split sep [] = [[]]"
| "str_split sep (c # cs) =
     (if c = sep then [] # str_split sep cs
      else (let r = str_split sep cs in (c # hd r) # tl r))"

fun str_nat :: "nat \<Rightarrow> string" where
  "str_nat n =
     (if n < 10 then [char_of (48 + n)] else str_nat (n div 10) @ [char_of (48 + n mod 10)])"

definition str_int :: "int \<Rightarrow> string" where
  "str_int i = (if i < 0 then CHR ''-'' # str_nat (nat (- i)) else str_nat (nat i))"

text \<open>\<^verbatim>\<open>mapping.get(key)\<close>, and the \<^verbatim>\<open>isinstance\<close> tests of the validator.\<close>

definition dict_get :: "section_map \<Rightarrow> string \<Rightarrow> yaml" where
  "dict_get m k = (case map_of m k of None \<Rightarrow> YNull | Some v \<Rightarrow> v)"

fun as_str :: "yaml \<Rightarrow> string option" where
  "as_str (YStr s) = Some s"
| "as_str _ = None"

fun as_mapping :: "yaml \<Rightarrow> section_map option" where
  "as_mapping (YMap m) = Some m"
| "as_mapping _ = None"

fun as_bool :: "yaml \<Rightarrow> bool option" where
  "as_bool (YBool b) = Some b"
| "as_bool _ = None"

text \<open>\<^verbatim>\<open>_is_int\<close>: an \<^verbatim>\<open>int\<close> that is not a \<^verbatim>\<open>bool\<close>.\<close>

fun as_int :: "yaml \<Rightarrow> int option" where
  "as_int (YInt i) = Some i"
| "as_int _ = None"

subsection \<open>Parsed values\<close>

text \<open>
  A \<^verbatim>\<open>datetime.time\<close> without microseconds. \<open>mk_time\<close> is its constructor, which
  raises \<^verbatim>\<open>ValueError\<close> for a field out of range; \<open>time_seconds\<close> is the second of the
  day, by which two times compare.
\<close>

record time =
  hour :: int
  minute :: int
  second :: int

definition mk_time :: "int \<Rightarrow> int \<Rightarrow> int \<Rightarrow> error + time" where
  "mk_time h m s =
     (if 0 \<le> h \<and> h \<le> 23 \<and> 0 \<le> m \<and> m \<le> 59 \<and> 0 \<le> s \<and> s \<le> 59
      then Inr \<lparr>hour = h, minute = m, second = s\<rparr>
      else Inl ValueError)"

definition time_seconds :: "time \<Rightarrow> int" where
  "time_seconds t = hour t * 3600 + minute t * 60 + second t"

text \<open>
  The frozen dataclasses of the validator. A \<^verbatim>\<open>date\<close> is its proleptic Gregorian
  ordinal. The fields \<^verbatim>\<open>start\<close> and \<^verbatim>\<open>end\<close> of \<^verbatim>\<open>ParsedCalendar\<close> are \<open>cal_start\<close>
  and \<open>cal_end\<close>, those of \<^verbatim>\<open>ParsedWorkHours\<close> are \<open>hours_start\<close> and \<open>hours_end\<close>.
\<close>

record ParsedCalendar =
  cal_start :: int
  cal_end :: int
  timezone_name :: string
  tz :: tzinfo

record ParsedWorkHours =
  hours_start :: time
  hours_end :: time

record ParsedWorkBlock =
  enabled :: bool
  hours :: "ParsedWorkHours option"

record ParsedWorkPatterns =
  weekdays :: ParsedWorkBlock
  saturday :: ParsedWorkBlock
  sunday :: ParsedWorkBlock

record ParsedRandomness =
  seed :: "int option"
  gap_minutes_min :: int
  gap_minutes_max :: int
  seconds_min :: int
  seconds_max :: int

record ValidatedConfig =
  timestamp :: TimestampConfig
  scope :: ScopeConfig
  calendar :: "ParsedCalendar option"
  work_patterns :: "ParsedWorkPatterns option"
  randomness :: "ParsedRandomness option"

subsection \<open>The validators\<close>

text \<open>
  A name cannot start with an underscore here: \<^verbatim>\<open>_parse_date\<close>, \<^verbatim>\<open>_parse_time\<close>,
  \<^verbatim>\<open>_resolve_timezone\<close>, \<^verbatim>\<open>_require_int\<close>, \<^verbatim>\<open>_forbid_synthetic_sections\<close> and
  \<^verbatim>\<open>_validate_work_block\<close> are written without it. Every validator takes the library as
  its first argument where it needs it; a \<^verbatim>\<open>raise\<close> is the result \<open>Inl\<close>.
\<close>

definition parse_date :: "pylib \<Rightarrow> string \<Rightarrow> string \<Rightarrow> error + int" where
  "parse_date lib path v =
     (case strptime_date lib v of
        Some d \<Rightarrow> Inr d
      | None \<Rightarrow> Inl (ValidationError path (''invalid date: '' @ v)))"

definition parse_time :: "pylib \<Rightarrow> string \<Rightarrow> string \<Rightarrow> error + time" where
  "parse_time lib path v =
     (let parts = str_split (CHR '':'') v in
      if length parts \<noteq> 2 then Inl (ValidationError path ''time must use HH:MM format'')
      else case int_of_str lib (parts ! 0) of
        None \<Rightarrow> Inl (ValidationError path (''invalid time: '' @ v))
      | Some h \<Rightarrow>
         (case int_of_str lib (parts ! 1) of
            None \<Rightarrow> Inl (ValidationError path (''invalid time: '' @ v))
          | Some m \<Rightarrow>
              if \<not> (0 \<le> h \<and> h \<le> 23)
              then Inl (ValidationError path (''hour out of range: '' @ str_int h))
              else if \<not> (0 \<le> m \<and> m \<le> 59)
              then Inl (ValidationError path (''minute out of range: '' @ str_int m))
              else Inr \<lparr>hour = h, minute = m, second = 0\<rparr>))"

definition resolve_timezone :: "pylib \<Rightarrow> string \<Rightarrow> string \<Rightarrow> error + tzinfo" where
  "resolve_timezone lib path name =
     (let upper = str_upper name in
      if upper \<in> {''UTC'', ''Z'', ''ETC/UTC''} then Inr UTC
      else case zone_info lib name of
        ZoneFound base transitions \<Rightarrow> Inr (ZoneInfo name base transitions)
      | ZoneNotFound \<Rightarrow>
          Inl (ValidationError path
                 (''invalid timezone: '' @ name @ ''. install tzdata or set timezone to UTC''))
      | ZoneFailed \<Rightarrow> Inl (ValidationError path (''invalid timezone: '' @ name)))"

definition require_int :: "section_map \<Rightarrow> string \<Rightarrow> string \<Rightarrow> error + int" where
  "require_int obj key path =
     (case as_int (dict_get obj key) of
        None \<Rightarrow> Inl (ValidationError path ''value must be an integer'')
      | Some i \<Rightarrow> Inr i)"

definition forbid_synthetic_sections :: "Config \<Rightarrow> string \<Rightarrow> error + unit" where
  "forbid_synthetic_sections cfg m =
     (if Config.calendar cfg \<noteq> None
      then Inl (ValidationError ''calendar'' (''calendar is not allowed in '' @ m @ '' mode''))
      else if Config.work_patterns cfg \<noteq> None
      then Inl (ValidationError ''work_patterns''
                  (''work_patterns is not allowed in '' @ m @ '' mode''))
      else if Config.randomness cfg \<noteq> None
      then Inl (ValidationError ''randomness''
                  (''randomness is not allowed in '' @ m @ '' mode''))
      else Inr ())"

definition validate_work_block :: "pylib \<Rightarrow> string \<Rightarrow> section_map \<Rightarrow> error + ParsedWorkBlock" where
  "validate_work_block lib path block =
     (case as_bool (dict_get block ''enabled'') of
        None \<Rightarrow> Inl (ValidationError (path @ ''.enabled'') ''enabled must be a boolean'')
      | Some en \<Rightarrow>
         (let hours_raw = dict_get block ''hours'' in
          if \<not> en then
            (if hours_raw \<noteq> YNull
             then Inl (ValidationError (path @ ''.hours'')
                         ''hours must be omitted when enabled is false'')
             else Inr \<lparr>enabled = False, hours = None\<rparr>)
          else case as_mapping hours_raw of
            None \<Rightarrow> Inl (ValidationError (path @ ''.hours'')
                            ''hours must be an object when enabled is true'')
          | Some hm \<Rightarrow>
             (case as_str (dict_get hm ''start'') of
                None \<Rightarrow> Inl (ValidationError (path @ ''.hours.start'') ''start must be a string'')
              | Some start_raw \<Rightarrow>
                 (case as_str (dict_get hm ''end'') of
                    None \<Rightarrow> Inl (ValidationError (path @ ''.hours.end'') ''end must be a string'')
                  | Some end_raw \<Rightarrow>
                     (case parse_time lib (path @ ''.hours.start'') start_raw of
                        Inl e \<Rightarrow> Inl e
                      | Inr start_t \<Rightarrow>
                         (case parse_time lib (path @ ''.hours.end'') end_raw of
                            Inl e \<Rightarrow> Inl e
                          | Inr end_t \<Rightarrow>
                              if time_seconds end_t \<le> time_seconds start_t
                              then Inl (ValidationError (path @ ''.hours.end'')
                                          ''end must be after hours.start'')
                              else Inr \<lparr>enabled = True,
                                        hours = Some \<lparr>hours_start = start_t,
                                                       hours_end = end_t\<rparr>\<rparr>))))))"

definition validate_calendar :: "pylib \<Rightarrow> section_map \<Rightarrow> error + ParsedCalendar" where
  "validate_calendar lib cal =
     (case as_str (dict_get cal ''start'') of
        None \<Rightarrow> Inl (ValidationError ''calendar.start'' ''start must be a string'')
      | Some start_raw \<Rightarrow>
         (case as_str (dict_get cal ''end'') of
            None \<Rightarrow> Inl (ValidationError ''calendar.end'' ''end must be a string'')
          | Some end_raw \<Rightarrow>
             (case parse_date lib ''calendar.start'' start_raw of
                Inl e \<Rightarrow> Inl e
              | Inr start \<Rightarrow>
                 (case parse_date lib ''calendar.end'' end_raw of
                    Inl e \<Rightarrow> Inl e
                  | Inr end_d \<Rightarrow>
                      if start > end_d
                      then Inl (ValidationError ''calendar'' ''start must be on or before end'')
                      else
                       (case (let tz_name_raw = dict_get cal ''timezone'' in
                              if tz_name_raw = YNull then Inr ''UTC''
                              else case as_str tz_name_raw of
                                None \<Rightarrow> Inl (ValidationError ''calendar.timezone''
                                                ''timezone must be a string'')
                              | Some raw \<Rightarrow>
                                  if str_strip raw = []
                                  then Inl (ValidationError ''calendar.timezone''
                                              ''timezone must not be empty'')
                                  else Inr (str_strip raw)) of
                          Inl e \<Rightarrow> Inl e
                        | Inr tz_name \<Rightarrow>
                           (case resolve_timezone lib ''calendar.timezone'' tz_name of
                              Inl e \<Rightarrow> Inl e
                            | Inr z \<Rightarrow>
                                Inr \<lparr>cal_start = start, cal_end = end_d,
                                     timezone_name = tz_name, tz = z\<rparr>))))))"

definition validate_work_patterns :: "pylib \<Rightarrow> section_map \<Rightarrow> error + ParsedWorkPatterns" where
  "validate_work_patterns lib wp =
     (case as_mapping (dict_get wp ''weekdays'') of
        None \<Rightarrow> Inl (ValidationError ''work_patterns.weekdays'' ''weekdays must be an object'')
      | Some weekdays_raw \<Rightarrow>
         (case as_mapping (dict_get wp ''saturday'') of
            None \<Rightarrow> Inl (ValidationError ''work_patterns.saturday''
                            ''saturday must be an object'')
          | Some saturday_raw \<Rightarrow>
             (case as_mapping (dict_get wp ''sunday'') of
                None \<Rightarrow> Inl (ValidationError ''work_patterns.sunday''
                                ''sunday must be an object'')
              | Some sunday_raw \<Rightarrow>
                 (case validate_work_block lib ''work_patterns.weekdays'' weekdays_raw of
                    Inl e \<Rightarrow> Inl e
                  | Inr wd \<Rightarrow>
                     (case validate_work_block lib ''work_patterns.saturday'' saturday_raw of
                        Inl e \<Rightarrow> Inl e
                      | Inr sa \<Rightarrow>
                         (case validate_work_block lib ''work_patterns.sunday'' sunday_raw of
                            Inl e \<Rightarrow> Inl e
                          | Inr su \<Rightarrow>
                              if \<not> (enabled wd \<or> enabled sa \<or> enabled su)
                              then Inl (ValidationError ''work_patterns''
                                    ''enable at least one of weekdays, saturday, or sunday'')
                              else Inr \<lparr>weekdays = wd, saturday = sa, sunday = su\<rparr>))))))"

definition validate_randomness :: "section_map \<Rightarrow> error + ParsedRandomness" where
  "validate_randomness rnd =
     (case (let seed_raw = dict_get rnd ''seed'' in
            if seed_raw = YNull then Inr None
            else case as_int seed_raw of
              None \<Rightarrow> Inl (ValidationError ''randomness.seed''
                              ''seed must be an integer or null'')
            | Some s \<Rightarrow> Inr (Some s)) of
        Inl e \<Rightarrow> Inl e
      | Inr sd \<Rightarrow>
         (case as_mapping (dict_get rnd ''gap_minutes'') of
            None \<Rightarrow> Inl (ValidationError ''randomness.gap_minutes''
                            ''gap_minutes must be an object'')
          | Some gap_raw \<Rightarrow>
             (case as_mapping (dict_get rnd ''seconds'') of
                None \<Rightarrow> Inl (ValidationError ''randomness.seconds'' ''seconds must be an object'')
              | Some sec_raw \<Rightarrow>
                 (case require_int gap_raw ''min'' ''randomness.gap_minutes.min'' of
                    Inl e \<Rightarrow> Inl e
                  | Inr gap_min \<Rightarrow>
                 (case require_int gap_raw ''max'' ''randomness.gap_minutes.max'' of
                    Inl e \<Rightarrow> Inl e
                  | Inr gap_max \<Rightarrow>
                      if gap_min < 0 \<or> gap_max < 0
                      then Inl (ValidationError ''randomness.gap_minutes''
                                  ''min and max must be non negative'')
                      else if gap_min > gap_max
                      then Inl (ValidationError ''randomness.gap_minutes''
                                  ''min must be less than or equal to max'')
                      else
                 (case require_int sec_raw ''min'' ''randomness.seconds.min'' of
                    Inl e \<Rightarrow> Inl e
                  | Inr sec_min \<Rightarrow>
                 (case require_int sec_raw ''max'' ''randomness.seconds.max'' of
                    Inl e \<Rightarrow> Inl e
                  | Inr sec_max \<Rightarrow>
                      if \<not> (0 \<le> sec_min \<and> sec_min \<le> 59)
                      then Inl (ValidationError ''randomness.seconds.min''
                                  ''min must be between 0 and 59'')
                      else if \<not> (0 \<le> sec_max \<and> sec_max \<le> 59)
                      then Inl (ValidationError ''randomness.seconds.max''
                                  ''max must be between 0 and 59'')
                      else if sec_min > sec_max
                      then Inl (ValidationError ''randomness.seconds''
                                  ''min must be less than or equal to max'')
                      else Inr \<lparr>seed = sd, gap_minutes_min = gap_min,
                                gap_minutes_max = gap_max, seconds_min = sec_min,
                                seconds_max = sec_max\<rparr>)))))))"

definition validate_config :: "pylib \<Rightarrow> Config \<Rightarrow> error + ValidatedConfig" where
  "validate_config lib cfg =
     (let m = mode (Config.timestamp cfg) in
      if m \<in> {''author'', ''commit''} then
        (case forbid_synthetic_sections cfg m of
           Inl e \<Rightarrow> Inl e
         | Inr _ \<Rightarrow>
             Inr \<lparr>ValidatedConfig.timestamp = Config.timestamp cfg,
                  scope = Config.scope cfg,
                  calendar = None, work_patterns = None, randomness = None\<rparr>)
      else if m \<noteq> ''synthetic''
      then Inl (ValidationError ''timestamp.mode'' (''unsupported mode: '' @ m))
      else case Config.calendar cfg of
        None \<Rightarrow> Inl (ValidationError ''calendar'' ''missing calendar for synthetic mode'')
      | Some cal \<Rightarrow>
         (case Config.work_patterns cfg of
            None \<Rightarrow> Inl (ValidationError ''work_patterns''
                            ''missing work_patterns for synthetic mode'')
          | Some wp \<Rightarrow>
             (case Config.randomness cfg of
                None \<Rightarrow> Inl (ValidationError ''randomness''
                                ''missing randomness for synthetic mode'')
              | Some rnd \<Rightarrow>
                 (case validate_calendar lib cal of
                    Inl e \<Rightarrow> Inl e
                  | Inr parsed_calendar \<Rightarrow>
                     (case validate_work_patterns lib wp of
                        Inl e \<Rightarrow> Inl e
                      | Inr parsed_work \<Rightarrow>
                         (case validate_randomness rnd of
                            Inl e \<Rightarrow> Inl e
                          | Inr parsed_rand \<Rightarrow>
                              Inr \<lparr>ValidatedConfig.timestamp = Config.timestamp cfg,
                                   scope = Config.scope cfg,
                                   calendar = Some parsed_calendar,
                                   work_patterns = Some parsed_work,
                                   randomness = Some parsed_rand\<rparr>))))))"

section \<open>Timestamp engine (\<^verbatim>\<open>synth/engine.py\<close>)\<close>

subsection \<open>Dates, datetimes and the random generator\<close>

text \<open>
  \<open>date_max\<close> is \<^verbatim>\<open>date.max.toordinal()\<close> (9999-12-31); the first ordinal is \<open>1\<close>
  (0001-01-01, a Monday). \<^verbatim>\<open>date + timedelta(days=n)\<close> and \<^verbatim>\<open>datetime + timedelta\<close>
  raise \<^verbatim>\<open>OverflowError\<close> when the result leaves that range. A \<^verbatim>\<open>timedelta\<close> is its
  length in seconds; building one of more than 999999999 days raises \<^verbatim>\<open>OverflowError\<close>
  too, and adding such a length to a datetime leaves the range in any case, so that the
  check of \<open>datetime_add\<close> covers both.
\<close>

definition date_max :: int where
  "date_max = 3652059"

definition date_add_days :: "int \<Rightarrow> int \<Rightarrow> error + int" where
  "date_add_days d n =
     (if 1 \<le> d + n \<and> d + n \<le> date_max then Inr (d + n) else Inl OverflowError)"

definition datetime_add :: "datetime \<Rightarrow> int \<Rightarrow> error + datetime" where
  "datetime_add dt s =
     (let w = dt_wall dt + s in
      if 86400 \<le> w \<and> w < (date_max + 1) * 86400 then Inr (dt\<lparr>dt_wall := w\<rparr>)
      else Inl OverflowError)"

text \<open>\<^verbatim>\<open>date.weekday()\<close> (Monday is 0), \<^verbatim>\<open>datetime.combine\<close> and \<^verbatim>\<open>datetime.date()\<close>.\<close>

definition weekday :: "int \<Rightarrow> int" where
  "weekday d = (d + 6) mod 7"

definition combine :: "int \<Rightarrow> time \<Rightarrow> tzinfo \<Rightarrow> datetime" where
  "combine d t z = \<lparr>dt_wall = d * 86400 + time_seconds t, dt_tzinfo = z\<rparr>"

definition date_of :: "datetime \<Rightarrow> int" where
  "date_of dt = dt_wall dt div 86400"

text \<open>
  \<^verbatim>\<open>datetime.utcoffset()\<close> in seconds, and the instant of a datetime: its reading on the
  UTC clock, in the seconds of \<open>dt_wall\<close> (\<^verbatim>\<open>datetime.timestamp()\<close> is this number less
  a constant).
\<close>

fun zone_offset :: "int \<Rightarrow> (int \<times> int) list \<Rightarrow> int \<Rightarrow> int" where
  "zone_offset base [] w = base"
| "zone_offset base ((t, off) # rest) w = (if w < t then base else zone_offset off rest w)"

fun tz_offset :: "tzinfo \<Rightarrow> int \<Rightarrow> int" where
  "tz_offset UTC w = 0"
| "tz_offset (FixedOffset s) w = s"
| "tz_offset (ZoneInfo name base transitions) w = zone_offset base transitions w"

definition utcoffset :: "datetime \<Rightarrow> int" where
  "utcoffset dt = tz_offset (dt_tzinfo dt) (dt_wall dt)"

definition utc_seconds :: "datetime \<Rightarrow> int" where
  "utc_seconds dt = dt_wall dt - utcoffset dt"

text \<open>
  Python's \<^verbatim>\<open><\<close> and \<^verbatim>\<open><=\<close> on aware datetimes: two datetimes with the same
  \<^verbatim>\<open>tzinfo\<close> object compare by their wall-clock readings, the zone and its offsets
  ignored; two datetimes with different \<^verbatim>\<open>tzinfo\<close> objects compare by their instants.
  (Two fixed offsets of the same length may be two objects; both rules then agree.)
  The engine compares datetimes that carry the calendar's \<^verbatim>\<open>tzinfo\<close> only, so its order
  is that of the local clock: in a zone with daylight-saving transitions this need not be
  the order of the instants.
\<close>

definition datetime_less :: "datetime \<Rightarrow> datetime \<Rightarrow> bool" where
  "datetime_less a b =
     (if dt_tzinfo a = dt_tzinfo b then dt_wall a < dt_wall b
      else utc_seconds a < utc_seconds b)"

definition datetime_le :: "datetime \<Rightarrow> datetime \<Rightarrow> bool" where
  "datetime_le a b =
     (if dt_tzinfo a = dt_tzinfo b then dt_wall a \<le> dt_wall b
      else utc_seconds a \<le> utc_seconds b)"

text \<open>
  \<^verbatim>\<open>random.Random\<close> is a parameter: \<open>new_random s\<close> is the generator
  \<^verbatim>\<open>random.Random(s)\<close> for an integer seed, and \<open>draw g a b\<close> is what
  \<^verbatim>\<open>g.randint(a, b)\<close> returns for \<open>a \<le> b\<close>, with the generator after the draw.
  \<^verbatim>\<open>randint\<close> raises \<^verbatim>\<open>ValueError\<close> on an empty range.
\<close>

record 'g random_lib =
  new_random :: "int \<Rightarrow> 'g"
  draw :: "'g \<Rightarrow> int \<Rightarrow> int \<Rightarrow> int \<times> 'g"

definition randint :: "'g random_lib \<Rightarrow> 'g \<Rightarrow> int \<Rightarrow> int \<Rightarrow> error + (int \<times> 'g)" where
  "randint R g a b = (if a > b then Inl ValueError else Inr (draw R g a b))"

subsection \<open>Helpers\<close>

text \<open>
  The helpers of the engine, without their leading underscore. Each takes the generator
  library and the generator first and returns the generator after its draws, where the
  Python passes one mutable \<^verbatim>\<open>rng\<close> along.
\<close>

definition random_gap ::
  "'g random_lib \<Rightarrow> 'g \<Rightarrow> int \<Rightarrow> int \<Rightarrow> int \<Rightarrow> int \<Rightarrow> error + (int \<times> 'g)" where
  "random_gap R g gap_min gap_max sec_min sec_max =
     (case randint R g gap_min gap_max of
        Inl e \<Rightarrow> Inl e
      | Inr (m, g1) \<Rightarrow>
         (case randint R g1 sec_min sec_max of
            Inl e \<Rightarrow> Inl e
          | Inr (s, g2) \<Rightarrow> Inr (m * 60 + s, g2)))"

definition work_block_for_day :: "int \<Rightarrow> ParsedWorkPatterns \<Rightarrow> ParsedWorkBlock" where
  "work_block_for_day day work =
     (if weekday day \<le> 4 then weekdays work
      else if weekday day = 5 then saturday work
      else sunday work)"

function next_enabled_day :: "int \<Rightarrow> int \<Rightarrow> ParsedWorkPatterns \<Rightarrow> error + int" where
  "next_enabled_day day end_day work =
     (if day \<le> end_day then
        (if enabled (work_block_for_day day work) then Inr day
         else case date_add_days day 1 of
           Inl e \<Rightarrow> Inl e
         | Inr day' \<Rightarrow> next_enabled_day day' end_day work)
      else Inl (EngineError ''Synthetic calendar window exhausted''))"
  by pat_completeness auto
termination
  by (relation "measure (\<lambda>(day, end_day, work). nat (end_day + 1 - day))")
     (auto simp: date_add_days_def split: if_splits)

declare next_enabled_day.simps [simp del]

text \<open>
  \<^verbatim>\<open>_window_bounds\<close> rebuilds the two times from the hour and minute of \<^verbatim>\<open>time\<close> objects,
  with the seconds 0 and 59: these constructor calls cannot raise.
\<close>

definition window_bounds :: "int \<Rightarrow> ParsedWorkHours \<Rightarrow> tzinfo \<Rightarrow> datetime \<times> datetime" where
  "window_bounds day h z =
     (combine day \<lparr>hour = hour (hours_start h), minute = minute (hours_start h), second = 0\<rparr> z,
      combine day \<lparr>hour = hour (hours_end h), minute = minute (hours_end h), second = 59\<rparr> z)"

definition pick_time_in_window ::
  "'g random_lib \<Rightarrow> 'g \<Rightarrow> time \<times> time \<Rightarrow> int \<Rightarrow> int \<Rightarrow> error + (time \<times> 'g)" where
  "pick_time_in_window R g window sec_min sec_max =
     (let start_s = hour (fst window) * 3600 + minute (fst window) * 60;
          end_s = hour (snd window) * 3600 + minute (snd window) * 60 + 59
      in if end_s < start_s then Inl (EngineError ''Invalid work window: end before start'')
         else case randint R g start_s end_s of
           Inl e \<Rightarrow> Inl e
         | Inr (drawn_s, g1) \<Rightarrow>
            (let aligned_s = drawn_s - (drawn_s mod 60);
                 chosen_s = max start_s (min aligned_s end_s);
                 chosen_minute = (chosen_s mod 3600) div 60;
                 chosen_hour = chosen_s div 3600
             in case randint R g1 sec_min sec_max of
               Inl e \<Rightarrow> Inl e
             | Inr (chosen_second, g2) \<Rightarrow>
                (case mk_time chosen_hour chosen_minute chosen_second of
                   Inl e \<Rightarrow> Inl e
                 | Inr t \<Rightarrow> Inr (t, g2))))"

definition random_datetime_for_day ::
  "'g random_lib \<Rightarrow> 'g \<Rightarrow> int \<Rightarrow> ParsedWorkPatterns \<Rightarrow> int \<Rightarrow> int \<Rightarrow> tzinfo
     \<Rightarrow> error + (datetime \<times> 'g)" where
  "random_datetime_for_day R g day work sec_min sec_max z =
     (let block = work_block_for_day day work in
      if \<not> enabled block \<or> hours block = None
      then Inl (EngineError ''Internal error: requested random time for a disabled day'')
      else case pick_time_in_window R g
                  (hours_start (the (hours block)), hours_end (the (hours block)))
                  sec_min sec_max of
        Inl e \<Rightarrow> Inl e
      | Inr (t, g') \<Rightarrow> Inr (combine day t z, g'))"

text \<open>
  The loop of \<^verbatim>\<open>_next_valid_datetime\<close>, over its two variables \<open>day\<close> and
  \<open>candidate\<close>; \<open>next_valid_datetime\<close> enters it at the candidate's date.
\<close>

function next_valid_loop ::
  "'g random_lib \<Rightarrow> 'g \<Rightarrow> int \<Rightarrow> datetime \<Rightarrow> int \<Rightarrow> ParsedWorkPatterns \<Rightarrow> int \<Rightarrow> int \<Rightarrow> tzinfo
     \<Rightarrow> error + (datetime \<times> 'g)" where
  "next_valid_loop R g day candidate end_day work sec_min sec_max z =
     (if day \<le> end_day then
        (let block = work_block_for_day day work in
         if \<not> enabled block \<or> hours block = None then
           (case date_add_days day 1 of
              Inl e \<Rightarrow> Inl e
            | Inr day' \<Rightarrow>
                next_valid_loop R g day'
                  (combine day' \<lparr>hour = 0, minute = 0, second = 0\<rparr> z)
                  end_day work sec_min sec_max z)
         else
           (let w = window_bounds day (the (hours block)) z in
            if datetime_less candidate (fst w)
            then random_datetime_for_day R g day work sec_min sec_max z
            else if datetime_le (fst w) candidate \<and> datetime_le candidate (snd w)
            then Inr (candidate, g)
            else case date_add_days day 1 of
              Inl e \<Rightarrow> Inl e
            | Inr day' \<Rightarrow>
                next_valid_loop R g day'
                  (combine day' \<lparr>hour = 0, minute = 0, second = 0\<rparr> z)
                  end_day work sec_min sec_max z))
      else Inl (EngineError ''Synthetic calendar window exhausted''))"
  by pat_completeness auto
termination
  by (relation "measure (\<lambda>(R, g, day, candidate, end_day, rest). nat (end_day + 1 - day))")
     (auto simp: date_add_days_def split: if_splits)

declare next_valid_loop.simps [simp del]

definition next_valid_datetime ::
  "'g random_lib \<Rightarrow> 'g \<Rightarrow> datetime \<Rightarrow> int \<Rightarrow> ParsedWorkPatterns \<Rightarrow> int \<Rightarrow> int \<Rightarrow> tzinfo
     \<Rightarrow> error + (datetime \<times> 'g)" where
  "next_valid_datetime R g candidate end_day work sec_min sec_max z =
     next_valid_loop R g (date_of candidate) candidate end_day work sec_min sec_max z"

subsection \<open>Mode implementations\<close>

text \<open>
  A result \<^verbatim>\<open>Dict[str, datetime]\<close> is a map from hashes to datetimes. A dict
  comprehension stores its items in order, a later one replacing an earlier one with the
  same key.
\<close>

definition author_mode :: "commit list \<Rightarrow> (string \<rightharpoonup> datetime)" where
  "author_mode commits = fold (\<lambda>c m. m(hash c \<mapsto> author_date c)) commits Map.empty"

definition commit_mode :: "commit list \<Rightarrow> (string \<rightharpoonup> datetime)" where
  "commit_mode commits = fold (\<lambda>c m. m(hash c \<mapsto> committer_date c)) commits Map.empty"

text \<open>The \<^verbatim>\<open>for commit in commits[1:]\<close> loop of \<^verbatim>\<open>_synthetic_mode\<close>.\<close>

fun synthetic_loop ::
  "'g random_lib \<Rightarrow> 'g \<Rightarrow> commit list \<Rightarrow> datetime \<Rightarrow> (string \<rightharpoonup> datetime)
     \<Rightarrow> int \<Rightarrow> int \<Rightarrow> int \<Rightarrow> int \<Rightarrow> int \<Rightarrow> ParsedWorkPatterns \<Rightarrow> tzinfo
     \<Rightarrow> error + (string \<rightharpoonup> datetime)" where
  "synthetic_loop R g [] current results gap_min gap_max sec_min sec_max end_day work z =
     Inr results"
| "synthetic_loop R g (c # cs) current results gap_min gap_max sec_min sec_max end_day work z =
     (case random_gap R g gap_min gap_max sec_min sec_max of
        Inl e \<Rightarrow> Inl e
      | Inr (gap, g1) \<Rightarrow>
         (case datetime_add current gap of
            Inl e \<Rightarrow> Inl e
          | Inr candidate \<Rightarrow>
             (case next_valid_datetime R g1 candidate end_day work sec_min sec_max z of
                Inl e \<Rightarrow> Inl e
              | Inr (current', g2) \<Rightarrow>
                  synthetic_loop R g2 cs current' (results(hash c \<mapsto> current'))
                    gap_min gap_max sec_min sec_max end_day work z)))"

text \<open>
  \<open>entropy\<close> is the generator that \<^verbatim>\<open>random.Random(None)\<close> builds from the operating
  system's entropy; it is used only when the seed is \<^verbatim>\<open>None\<close>.
\<close>

definition synthetic_mode ::
  "'g random_lib \<Rightarrow> 'g \<Rightarrow> commit list \<Rightarrow> ValidatedConfig \<Rightarrow> error + (string \<rightharpoonup> datetime)" where
  "synthetic_mode R entropy commits config =
     (if commits = [] then Inr Map.empty
      else if ValidatedConfig.calendar config = None
            \<or> ValidatedConfig.work_patterns config = None
            \<or> ValidatedConfig.randomness config = None
      then Inl (EngineError
             ''Synthetic mode requires validated calendar, work_patterns, and randomness'')
      else
       (let cal = the (ValidatedConfig.calendar config);
            work = the (ValidatedConfig.work_patterns config);
            rnd = the (ValidatedConfig.randomness config);
            start_day = cal_start cal;
            end_day = cal_end cal;
            z = tz cal;
            rng = (case seed rnd of None \<Rightarrow> entropy | Some s \<Rightarrow> new_random R s);
            gap_min = gap_minutes_min rnd;
            gap_max = gap_minutes_max rnd;
            sec_min = seconds_min rnd;
            sec_max = seconds_max rnd
        in case next_enabled_day start_day end_day work of
          Inl e \<Rightarrow> Inl e
        | Inr day0 \<Rightarrow>
           (case random_datetime_for_day R rng day0 work sec_min sec_max z of
              Inl e \<Rightarrow> Inl e
            | Inr (current, rng1) \<Rightarrow>
                synthetic_loop R rng1 (tl commits) current
                  (Map.empty(hash (hd commits) \<mapsto> current))
                  gap_min gap_max sec_min sec_max end_day work z)))"

subsection \<open>Public API\<close>

definition compute_timestamps ::
  "'g random_lib \<Rightarrow> 'g \<Rightarrow> commit list \<Rightarrow> ValidatedConfig \<Rightarrow> error + (string \<rightharpoonup> datetime)" where
  "compute_timestamps R entropy commits config =
     (let m = mode (ValidatedConfig.timestamp config) in
      if m = ''author'' then Inr (author_mode commits)
      else if m = ''commit'' then Inr (commit_mode commits)
      else if m = ''synthetic'' then synthetic_mode R entropy commits config
      else Inl (EngineError (''Unsupported timestamp mode: '' @ m)))"

section \<open>What validation guarantees\<close>

text \<open>
  The properties of a synthetic configuration that \<^verbatim>\<open>validate_config\<close> enforces, as the
  docstrings of the validators list them: a time of day is a real one, an enabled block
  has hours that end after they start and a disabled block has none, one block at least
  is enabled, the calendar is in order, and both randomness ranges are in order and
  non-negative, the seconds within a minute. \<open>validate_config_validated\<close> below proves
  that every configuration \<open>validate_config\<close> returns in synthetic mode has them.
\<close>

definition valid_time :: "time \<Rightarrow> bool" where
  "valid_time t =
     (0 \<le> hour t \<and> hour t \<le> 23 \<and> 0 \<le> minute t \<and> minute t \<le> 59
      \<and> 0 \<le> second t \<and> second t \<le> 59)"

definition valid_block :: "ParsedWorkBlock \<Rightarrow> bool" where
  "valid_block b =
     (case hours b of
        None \<Rightarrow> \<not> enabled b
      | Some h \<Rightarrow>
          enabled b \<and> valid_time (hours_start h) \<and> valid_time (hours_end h)
          \<and> time_seconds (hours_start h) < time_seconds (hours_end h))"

definition valid_randomness :: "ParsedRandomness \<Rightarrow> bool" where
  "valid_randomness rnd =
     (0 \<le> gap_minutes_min rnd \<and> gap_minutes_min rnd \<le> gap_minutes_max rnd
      \<and> 0 \<le> seconds_min rnd \<and> seconds_min rnd \<le> seconds_max rnd
      \<and> seconds_max rnd \<le> 59)"

definition valid_work :: "ParsedWorkPatterns \<Rightarrow> bool" where
  "valid_work work =
     (valid_block (weekdays work) \<and> valid_block (saturday work) \<and> valid_block (sunday work)
      \<and> (enabled (weekdays work) \<or> enabled (saturday work) \<or> enabled (sunday work)))"

definition validated_synthetic :: "ValidatedConfig \<Rightarrow> bool" where
  "validated_synthetic config =
     (mode (ValidatedConfig.timestamp config) = ''synthetic''
      \<and> (case ValidatedConfig.calendar config of
            None \<Rightarrow> False
          | Some cal \<Rightarrow> cal_start cal \<le> cal_end cal)
      \<and> (case ValidatedConfig.work_patterns config of
            None \<Rightarrow> False
          | Some work \<Rightarrow> valid_work work)
      \<and> (case ValidatedConfig.randomness config of
            None \<Rightarrow> False
          | Some rnd \<Rightarrow> valid_randomness rnd))"

text \<open>What the engine relies on of \<^verbatim>\<open>randint\<close>: a draw lies within its bounds.\<close>

definition draws_in_range :: "'g random_lib \<Rightarrow> bool" where
  "draws_in_range R =
     (\<forall>g a b. a \<le> b \<longrightarrow> a \<le> fst (draw R g a b) \<and> fst (draw R g a b) \<le> b)"

text \<open>
  A zone whose clock never jumps forward: a later wall-clock reading is a later instant
  (or the same one). UTC, the fixed offsets and the zones without a transition to a
  greater offset are such zones.
\<close>

definition zone_monotone :: "tzinfo \<Rightarrow> bool" where
  "zone_monotone z = (\<forall>w w'. w \<le> w' \<longrightarrow> w - tz_offset z w \<le> w' - tz_offset z w')"

text \<open>
  The bounds of a block's hours as seconds of the day, as \<^verbatim>\<open>_pick_time_in_window\<close>
  computes them; \<open>end_s\<close> is the last second of the closing minute. An output instant
  lies in the work window of its own day when the day's block is enabled and the time of
  day is between the two, both included.
\<close>

definition start_s :: "ParsedWorkHours \<Rightarrow> int" where
  "start_s h = hour (hours_start h) * 3600 + minute (hours_start h) * 60"

definition end_s :: "ParsedWorkHours \<Rightarrow> int" where
  "end_s h = hour (hours_end h) * 3600 + minute (hours_end h) * 60 + 59"

definition in_work_window :: "ParsedWorkPatterns \<Rightarrow> datetime \<Rightarrow> bool" where
  "in_work_window work dt =
     (let block = work_block_for_day (date_of dt) work in
      enabled block
      \<and> (case hours block of
            None \<Rightarrow> False
          | Some h \<Rightarrow> start_s h \<le> dt_wall dt mod 86400 \<and> dt_wall dt mod 86400 \<le> end_s h))"

section \<open>Sample data\<close>

text \<open>
  Commits with pairwise distinct hashes and distinct author and committer dates, for the
  worked examples that follow the theorems.
\<close>

definition sample_commit :: "nat \<Rightarrow> commit" where
  "sample_commit i =
     \<lparr>hash = replicate (Suc i) (CHR ''c''),
      author_date = \<lparr>dt_wall = 63839700000 + 4000 * int i, dt_tzinfo = FixedOffset 3600\<rparr>,
      committer_date = \<lparr>dt_wall = 63839800000 + 5000 * int i, dt_tzinfo = UTC\<rparr>,
      index = int i, subject = [], author_name = [], author_email = [],
      committer_name = [], committer_email = [], refs = []\<rparr>"

definition sample_history :: "nat \<Rightarrow> commit list" where
  "sample_history n = map sample_commit [0..<n]"

text \<open>
  The scenario of the specification: the week from Monday 2024-01-01 (ordinal 738886) to
  Friday 2024-01-05 in UTC, weekdays from 09:00 to 17:00, seed 42, gaps of 25 to 90
  minutes and 5 to 55 seconds.
\<close>

definition sample_work :: ParsedWorkPatterns where
  "sample_work =
     \<lparr>weekdays = \<lparr>enabled = True,
                  hours = Some \<lparr>hours_start = \<lparr>hour = 9, minute = 0, second = 0\<rparr>,
                                 hours_end = \<lparr>hour = 17, minute = 0, second = 0\<rparr>\<rparr>\<rparr>,
      saturday = \<lparr>enabled = False, hours = None\<rparr>,
      sunday = \<lparr>enabled = False, hours = None\<rparr>\<rparr>"

definition sample_randomness :: ParsedRandomness where
  "sample_randomness =
     \<lparr>seed = Some 42, gap_minutes_min = 25, gap_minutes_max = 90,
      seconds_min = 5, seconds_max = 55\<rparr>"

definition sample_calendar :: ParsedCalendar where
  "sample_calendar =
     \<lparr>cal_start = 738886, cal_end = 738890, timezone_name = ''UTC'', tz = UTC\<rparr>"

definition sample_config :: ValidatedConfig where
  "sample_config =
     \<lparr>ValidatedConfig.timestamp = \<lparr>mode = ''synthetic''\<rparr>,
      scope = \<lparr>fraction = 1\<rparr>,
      calendar = Some sample_calendar,
      work_patterns = Some sample_work,
      randomness = Some sample_randomness\<rparr>"

text \<open>
  Variants of the scenario: work on Saturdays only, so that no date of the calendar has
  an enabled block; gaps of zero minutes and zero seconds; no seed; and the last week of
  the calendar Python can represent (Monday 9999-12-27 to Friday 9999-12-31, ordinal
  \<open>date_max\<close>).
\<close>

definition saturday_work :: ParsedWorkPatterns where
  "saturday_work =
     \<lparr>weekdays = \<lparr>enabled = False, hours = None\<rparr>,
      saturday = \<lparr>enabled = True,
                  hours = Some \<lparr>hours_start = \<lparr>hour = 9, minute = 0, second = 0\<rparr>,
                                 hours_end = \<lparr>hour = 17, minute = 0, second = 0\<rparr>\<rparr>\<rparr>,
      sunday = \<lparr>enabled = False, hours = None\<rparr>\<rparr>"

definition saturday_config :: ValidatedConfig where
  "saturday_config =
     \<lparr>ValidatedConfig.timestamp = \<lparr>mode = ''synthetic''\<rparr>,
      scope = \<lparr>fraction = 1\<rparr>,
      calendar = Some sample_calendar,
      work_patterns = Some saturday_work,
      randomness = Some sample_randomness\<rparr>"

definition zero_gap_config :: ValidatedConfig where
  "zero_gap_config =
     \<lparr>ValidatedConfig.timestamp = \<lparr>mode = ''synthetic''\<rparr>,
      scope = \<lparr>fraction = 1\<rparr>,
      calendar = Some sample_calendar,
      work_patterns = Some sample_work,
      randomness = Some \<lparr>seed = Some 42, gap_minutes_min = 0, gap_minutes_max = 0,
                          seconds_min = 0, seconds_max = 0\<rparr>\<rparr>"

definition unseeded_config :: ValidatedConfig where
  "unseeded_config =
     \<lparr>ValidatedConfig.timestamp = \<lparr>mode = ''synthetic''\<rparr>,
      scope = \<lparr>fraction = 1\<rparr>,
      calendar = Some sample_calendar,
      work_patterns = Some sample_work,
      randomness = Some \<lparr>seed = None, gap_minutes_min = 25, gap_minutes_max = 90,
                          seconds_min = 5, seconds_max = 55\<rparr>\<rparr>"

definition year_end_calendar :: ParsedCalendar where
  "year_end_calendar =
     \<lparr>cal_start = 3652055, cal_end = 3652059, timezone_name = ''UTC'', tz = UTC\<rparr>"

definition year_end_config :: ValidatedConfig where
  "year_end_config =
     \<lparr>ValidatedConfig.timestamp = \<lparr>mode = ''synthetic''\<rparr>,
      scope = \<lparr>fraction = 1\<rparr>,
      calendar = Some year_end_calendar,
      work_patterns = Some saturday_work,
      randomness = Some sample_randomness\<rparr>"

text \<open>
  The same scenario as a raw configuration, and the library restricted to the strings
  that occur in it.
\<close>

definition sample_calendar_raw :: section_map where
  "sample_calendar_raw =
     [(''start'', YStr ''2024-01-01''), (''end'', YStr ''2024-01-05''),
      (''timezone'', YStr ''UTC'')]"

definition sample_work_raw :: section_map where
  "sample_work_raw =
     [(''weekdays'', YMap [(''enabled'', YBool True),
                          (''hours'', YMap [(''start'', YStr ''09:00''),
                                           (''end'', YStr ''17:00'')])]),
      (''saturday'', YMap [(''enabled'', YBool False)]),
      (''sunday'', YMap [(''enabled'', YBool False)])]"

definition sample_randomness_raw :: section_map where
  "sample_randomness_raw =
     [(''seed'', YInt 42),
      (''gap_minutes'', YMap [(''min'', YInt 25), (''max'', YInt 90)]),
      (''seconds'', YMap [(''min'', YInt 5), (''max'', YInt 55)])]"

definition raw_config ::
  "string \<Rightarrow> section_map option \<Rightarrow> section_map option \<Rightarrow> section_map option \<Rightarrow> Config" where
  "raw_config m cal wp rnd =
     \<lparr>Config.timestamp = \<lparr>mode = m\<rparr>, scope = \<lparr>fraction = 1\<rparr>,
      calendar = cal, work_patterns = wp, randomness = rnd\<rparr>"

definition sample_pylib :: pylib where
  "sample_pylib =
     \<lparr>strptime_date = (\<lambda>s. if s = ''2024-01-01'' then Some 738886
                            else if s = ''2024-01-05'' then Some 738890
                            else if s = ''2024-03-31'' then Some 738976 else None),
      int_of_str = (\<lambda>s. if s = ''09'' then Some 9 else if s = ''17'' then Some 17
                         else if s = ''00'' then Some 0 else if s = ''01'' then Some 1
                         else if s = ''03'' then Some 3 else if s = ''30'' then Some 30
                         else if s = ''40'' then Some 40 else None),
      zone_info = (\<lambda>s. if s = ''Europe/London''
                        then ZoneFound 0 [(63847533600, 3600), (63865677600, 0)]
                        else ZoneNotFound)\<rparr>"

text \<open>
  A night shift in London over the start of summer time: Sunday 2024-03-31 (ordinal
  738976), when the clocks go from 01:00 to 02:00, with work on Sundays from 01:30 to
  03:00 and gaps of exactly 40 minutes. The zone is Europe/London with its two
  transitions of 2024: from the reading 02:00 of 2024-03-31 the offset is one hour, from
  the reading 02:00 of 2024-10-27 it is zero again.
\<close>

definition london :: tzinfo where
  "london = ZoneInfo ''Europe/London'' 0 [(63847533600, 3600), (63865677600, 0)]"

definition london_calendar_raw :: section_map where
  "london_calendar_raw =
     [(''start'', YStr ''2024-03-31''), (''end'', YStr ''2024-03-31''),
      (''timezone'', YStr ''Europe/London'')]"

definition london_work_raw :: section_map where
  "london_work_raw =
     [(''weekdays'', YMap [(''enabled'', YBool False)]),
      (''saturday'', YMap [(''enabled'', YBool False)]),
      (''sunday'', YMap [(''enabled'', YBool True),
                        (''hours'', YMap [(''start'', YStr ''01:30''),
                                         (''end'', YStr ''03:00'')])])]"

definition london_randomness_raw :: section_map where
  "london_randomness_raw =
     [(''seed'', YInt 42),
      (''gap_minutes'', YMap [(''min'', YInt 40), (''max'', YInt 40)]),
      (''seconds'', YMap [(''min'', YInt 0), (''max'', YInt 0)])]"

definition london_config :: ValidatedConfig where
  "london_config =
     \<lparr>ValidatedConfig.timestamp = \<lparr>mode = ''synthetic''\<rparr>,
      scope = \<lparr>fraction = 1\<rparr>,
      calendar = Some \<lparr>cal_start = 738976, cal_end = 738976,
                        timezone_name = ''Europe/London'', tz = london\<rparr>,
      work_patterns =
        Some \<lparr>weekdays = \<lparr>enabled = False, hours = None\<rparr>,
              saturday = \<lparr>enabled = False, hours = None\<rparr>,
              sunday = \<lparr>enabled = True,
                        hours = Some \<lparr>hours_start = \<lparr>hour = 1, minute = 30, second = 0\<rparr>,
                                       hours_end = \<lparr>hour = 3, minute = 0, second = 0\<rparr>\<rparr>\<rparr>\<rparr>,
      randomness = Some \<lparr>seed = Some 42, gap_minutes_min = 40, gap_minutes_max = 40,
                          seconds_min = 0, seconds_max = 0\<rparr>\<rparr>"

text \<open>A generator whose every draw is the lower bound of its range.\<close>

definition lowest_random :: "int random_lib" where
  "lowest_random = \<lparr>new_random = (\<lambda>s. s), draw = (\<lambda>g a b. (a, g))\<rparr>"

text \<open>
  A configuration without the synthetic sections, as validation returns it for the author
  and commit modes.
\<close>

definition plain_config :: "string \<Rightarrow> ValidatedConfig" where
  "plain_config m =
     \<lparr>ValidatedConfig.timestamp = \<lparr>mode = m\<rparr>, scope = \<lparr>fraction = 1\<rparr>,
      calendar = None, work_patterns = None, randomness = None\<rparr>"

text \<open>
  A generator for the examples (any generator whose draws lie within their bounds would
  do): a linear congruential sequence, reduced into the range of each draw.
\<close>

definition sample_random :: "int random_lib" where
  "sample_random =
     \<lparr>new_random = (\<lambda>s. \<bar>s\<bar>),
      draw = (\<lambda>g a b. (a + g mod (b - a + 1),
                       (g * 1103515245 + 12345) mod 2147483648))\<rparr>"

section \<open>Properties of scope selection\<close>

lemma slice_to_from: "slice_to xs i @ slice_from xs i = xs"
  by (simp add: slice_to_def slice_from_def)

lemma slice_to_prefix: "prefix (slice_to xs i) xs"
  by (simp add: slice_to_def take_is_prefix)

lemma slice_from_suffix: "suffix (slice_from xs i) xs"
  by (simp add: slice_from_def suffix_drop)

text \<open>
  Claim C1. For every commit list and every fraction in \<open>[-1, 1]\<close>, \<open>apply_scope\<close> returns
  a pair \<open>(selected, untouched)\<close> that partitions the input in its order: \<open>selected\<close> is
  a prefix when the fraction is positive (followed by \<open>untouched\<close>), a suffix when it is
  negative (preceded by \<open>untouched\<close>), and empty, with \<open>untouched\<close> the whole list, when
  the fraction is zero or the list is empty.
\<close>

theorem apply_scope_partition:
  assumes "- 1 \<le> fr" and "fr \<le> 1"
  shows "\<exists>selected untouched.
           apply_scope commits fr = Inr (selected, untouched)
         \<and> (0 < fr \<longrightarrow> selected @ untouched = commits \<and> prefix selected commits)
         \<and> (fr < 0 \<longrightarrow> untouched @ selected = commits \<and> suffix selected commits)
         \<and> (fr = 0 \<or> commits = [] \<longrightarrow> selected = [] \<and> untouched = commits)"
  using assms unfolding apply_scope_def Let_def
  by (simp add: slice_to_from slice_to_prefix slice_from_suffix)

theorem apply_scope_partition_witness:
  "- 1 \<le> (1 / 2 :: rat) \<and> (1 / 2 :: rat) \<le> 1
   \<and> (\<exists>selected untouched.
          apply_scope (sample_history 3) (1 / 2) = Inr (selected, untouched)
        \<and> selected @ untouched = sample_history 3 \<and> prefix selected (sample_history 3))
   \<and> - 1 \<le> (- 1 / 2 :: rat) \<and> (- 1 / 2 :: rat) \<le> 1
   \<and> (\<exists>selected untouched.
          apply_scope (sample_history 3) (- 1 / 2) = Inr (selected, untouched)
        \<and> untouched @ selected = sample_history 3 \<and> suffix selected (sample_history 3))
   \<and> (\<exists>selected untouched.
          apply_scope (sample_history 3) 0 = Inr (selected, untouched)
        \<and> selected = [] \<and> untouched = sample_history 3)"
proof -
  have p: "- 1 \<le> (1 / 2 :: rat)" "(1 / 2 :: rat) \<le> 1" "0 < (1 / 2 :: rat)" by simp_all
  have n: "- 1 \<le> (- 1 / 2 :: rat)" "(- 1 / 2 :: rat) \<le> 1" "(- 1 / 2 :: rat) < 0" by simp_all
  have z: "- 1 \<le> (0 :: rat)" "(0 :: rat) \<le> 1" by simp_all
  from apply_scope_partition [OF p(1,2), of "sample_history 3"] p(3)
  have a: "\<exists>selected untouched.
          apply_scope (sample_history 3) (1 / 2) = Inr (selected, untouched)
        \<and> selected @ untouched = sample_history 3 \<and> prefix selected (sample_history 3)"
    by blast
  from apply_scope_partition [OF n(1,2), of "sample_history 3"] n(3)
  have b: "\<exists>selected untouched.
          apply_scope (sample_history 3) (- 1 / 2) = Inr (selected, untouched)
        \<and> untouched @ selected = sample_history 3 \<and> suffix selected (sample_history 3)"
    by blast
  from apply_scope_partition [OF z, of "sample_history 3"]
  have c: "\<exists>selected untouched.
          apply_scope (sample_history 3) 0 = Inr (selected, untouched)
        \<and> selected = [] \<and> untouched = sample_history 3"
    by blast
  show ?thesis using p(1,2) n(1,2) a b c by blast
qed

lemma sample_scope_values:
  "apply_scope (sample_history 3) (1 / 2)
     = Inr ([sample_commit 0], [sample_commit 1, sample_commit 2])"
  "apply_scope (sample_history 3) (- 1 / 2)
     = Inr ([sample_commit 2], [sample_commit 0, sample_commit 1])"
  by code_simp+

subsection \<open>The binary64 rounding stays within the list\<close>

lemma fl_exponent_le: 
  assumes x: "0 < x" shows "2 powi (fl_exponent x) \<le> x"
proof -
  obtain p q where pq: "quotient_of x = (p, q)" by (cases "quotient_of x")
  have q: "0 < q" using pq quotient_of_denom_pos by blast
  have xe: "x = of_int p / of_int q" using pq quotient_of_div by blast
  have p: "0 < p" using x xe q by (simp add: zero_less_divide_iff)
  define d where "d = bitlen p - bitlen q"
  have bp: "(2::int) ^ nat (bitlen p - 1) \<le> p" using bitlen_bounds[OF p] by simp
  have bq: "q < 2 ^ nat (bitlen q)" using bitlen_bounds[OF q] by simp
  have bp': "(2::rat) ^ nat (bitlen p - 1) \<le> of_int p"
    using bp by (metis of_int_le_iff of_int_numeral of_int_power)
  have bq': "of_int q < (2::rat) ^ nat (bitlen q)"
    using bq by (metis of_int_less_iff of_int_numeral of_int_power)
  have lp: "1 \<le> bitlen p" using p bitlen_eq_zero_iff[of p] bitlen_nonneg[of p] by linarith
  have lq: "1 \<le> bitlen q" using q bitlen_eq_zero_iff[of q] bitlen_nonneg[of q] by linarith
  have e1: "(2::rat) powi (bitlen p - 1) \<le> of_int p"
    using bp' lp by (simp add: power_int_def)
  have e2: "of_int q < (2::rat) powi (bitlen q)"
    using bq' lq by (simp add: power_int_def)
  have "(2::rat) powi (d - 1) = 2 powi (bitlen p - 1) / 2 powi (bitlen q)"
    unfolding d_def by (simp add: power_int_diff)
  also have "\<dots> \<le> of_int p / of_int q"
    using e1 e2 q p by (intro frac_le) auto
  finally have low: "(2::rat) powi (d - 1) \<le> x" using xe by simp
  show ?thesis
    using low pq unfolding fl_exponent_def Let_def d_def by simp
qed

lemma round_half_even_le: 
  assumes "q \<le> of_int m" shows "round_half_even q \<le> m"
proof (cases "\<lfloor>q\<rfloor> = m")
  case True
  then have "q - of_int \<lfloor>q\<rfloor> \<le> 0" using assms by simp
  then show ?thesis using True by (simp add: round_half_even_def Let_def)
next
  case False
  moreover have "\<lfloor>q\<rfloor> \<le> m" using assms by (simp add: floor_le_iff) 
  ultimately have "\<lfloor>q\<rfloor> + 1 \<le> m" by simp
  then show ?thesis by (simp add: round_half_even_def Let_def)
qed

lemma round_half_even_of_int: "round_half_even (of_int m) = m"
  by (simp add: round_half_even_def)

lemma round_half_even_nonneg: "0 \<le> q \<Longrightarrow> 0 \<le> round_half_even q"
  by (simp add: round_half_even_def Let_def)

lemma fl_exponent_small:
  assumes "0 < x" "x < 2 ^ 53" shows "fl_exponent x \<le> 52"
proof (rule ccontr)
  assume "\<not> fl_exponent x \<le> 52"
  then have "53 \<le> fl_exponent x" by simp
  then have "(2::rat) powi 53 \<le> 2 powi (fl_exponent x)"
    by (intro power_int_increasing) auto
  then have "(2::rat) ^ 53 \<le> x" using fl_exponent_le[OF assms(1)] by (simp add: power_int_def)
  then show False using assms(2) by simp
qed

lemma fl_round_le_int:
  assumes x: "0 \<le> x" "x \<le> of_int n" and n: "n < 2 ^ 53"
  shows "0 \<le> fl_round x \<and> fl_round x \<le> of_int n"
proof (cases "x = 0")
  case True
  then show ?thesis using x by (simp add: fl_round_def)
next
  case False
  then have xp: "0 < x" using x by simp
  have "of_int n < (2::rat) ^ 53" using n by (metis of_int_less_iff of_int_numeral of_int_power)
  then have "x < 2 ^ 53" using x by simp
  then have e52: "fl_exponent x \<le> 52" using fl_exponent_small xp by simp
  define e where "e = max (fl_exponent x) (- 1022)"
  define u where "u = (2::rat) powi (e - 52)"
  have ele: "e \<le> 52" using e52 by (simp add: e_def)
  have up: "0 < u" by (simp add: u_def)
  have uinv: "1 / u = 2 ^ nat (52 - e)"
    using ele unfolding u_def
    by (simp add: power_int_def field_simps)
  define M where "M = n * 2 ^ nat (52 - e)"
  have Mu: "of_int M * u = (of_int n :: rat)"
    unfolding M_def using uinv up by (simp add: field_simps)
  have "x / u \<le> of_int n / u" using x up by (simp add: divide_right_mono)
  also have "\<dots> = of_int M" using Mu up by (simp add: field_simps)
  finally have "round_half_even (x / u) \<le> M" by (rule round_half_even_le)
  then have "of_int (round_half_even (x / u)) * u \<le> of_int M * u"
    using up by simp
  then have hi: "of_int (round_half_even (x / u)) * u \<le> (of_int n :: rat)" using Mu by simp
  have "0 \<le> x / u" using xp up by simp
  then have lo: "0 \<le> of_int (round_half_even (x / u)) * u"
    using round_half_even_nonneg up by simp
  have "fl_round x = of_int (round_half_even (x / u)) * u"
    using xp unfolding fl_round_def Let_def u_def e_def by simp
  then show ?thesis using hi lo by simp
qed

lemma fl_round_of_int:
  assumes "0 \<le> n" "n < 2 ^ 53" shows "fl_round (of_int n) = of_int n"
proof (cases "n = 0")
  case True then show ?thesis by (simp add: fl_round_def)
next
  case False
  then have np: "0 < n" using assms by simp
  let ?x = "of_int n :: rat"
  have xp: "0 < ?x" using np by simp
  have "?x < 2 ^ 53" using assms(2) by (metis of_int_less_iff of_int_numeral of_int_power)
  then have e52: "fl_exponent ?x \<le> 52" using fl_exponent_small xp by simp
  define e where "e = max (fl_exponent ?x) (- 1022)"
  define u where "u = (2::rat) powi (e - 52)"
  have ele: "e \<le> 52" using e52 by (simp add: e_def)
  have up: "0 < u" by (simp add: u_def)
  have uinv: "1 / u = 2 ^ nat (52 - e)"
    using ele unfolding u_def
    by (simp add: power_int_def field_simps)
  define M where "M = n * 2 ^ nat (52 - e)"
  have Mu: "of_int M * u = (of_int n :: rat)"
    unfolding M_def using uinv up by (simp add: field_simps)
  have "?x / u = of_int M" using Mu up by (simp add: field_simps)
  then have "round_half_even (?x / u) = M" by (simp only: round_half_even_of_int)
  moreover have "fl_round ?x = of_int (round_half_even (?x / u)) * u"
    using xp np unfolding fl_round_def Let_def u_def e_def by simp
  ultimately show ?thesis using Mu by simp
qed

lemma length_slice_to: "0 \<le> k \<Longrightarrow> k \<le> int (length xs) \<Longrightarrow> int (length (slice_to xs k)) = k"
  by (simp add: slice_to_def slice_index_def)

lemma length_slice_from_end:
  "0 \<le> k \<Longrightarrow> k \<le> int (length xs) \<Longrightarrow> int (length (slice_from xs (int (length xs) - k))) = k"
  by (simp add: slice_from_def slice_index_def)

lemma fl_mul_int_bounds:
  assumes "0 \<le> x" "x \<le> 1" "0 \<le> n" "n < 2 ^ 53"
  shows "fl_mul_int x n = fl_round (x * of_int n)"
    and "0 \<le> \<lfloor>fl_mul_int x n\<rfloor>" and "\<lfloor>fl_mul_int x n\<rfloor> \<le> n"
proof -
  show eq: "fl_mul_int x n = fl_round (x * of_int n)"
    using assms by (simp add: fl_mul_int_def fl_round_of_int)
  have "0 \<le> x * of_int n" using assms by simp
  moreover have "x * of_int n \<le> of_int n" using assms by (simp add: mult_left_le_one_le)
  ultimately have b: "0 \<le> fl_round (x * of_int n) \<and> fl_round (x * of_int n) \<le> of_int n"
    using assms(4) by (rule fl_round_le_int)
  show "0 \<le> \<lfloor>fl_mul_int x n\<rfloor>" using b eq by simp
  show "\<lfloor>fl_mul_int x n\<rfloor> \<le> n" using b eq by (simp add: floor_le_iff) 
qed

lemma apply_scope_length_rounded:
  assumes "- 1 \<le> fr" and "fr \<le> 1" and "length commits < 2 ^ 53"
  shows "\<exists>selected untouched.
           apply_scope commits fr = Inr (selected, untouched)
         \<and> int (length selected) = \<lfloor>fl_round (\<bar>fr\<bar> * of_nat (length commits))\<rfloor>"
proof -
  let ?n = "int (length commits)"
  have a: "0 \<le> \<bar>fr\<bar>" "\<bar>fr\<bar> \<le> 1" using assms by auto
  have n: "0 \<le> ?n" "?n < 2 ^ 53" using assms(3) by (simp_all add: nat_less_iff [symmetric]) 
  note b = fl_mul_int_bounds[OF a n]
  let ?k = "\<lfloor>fl_mul_int \<bar>fr\<bar> ?n\<rfloor>"
  have keq: "?k = \<lfloor>fl_round (\<bar>fr\<bar> * of_nat (length commits))\<rfloor>"
    using b(1) by simp
  have l1: "int (length (slice_to commits ?k)) = ?k"
    using b(2,3) by (rule length_slice_to)
  have l2: "int (length (slice_from commits (?n - ?k))) = ?k"
    using b(2,3) by (rule length_slice_from_end)
  have z: "fl_round 0 = 0" by (simp add: fl_round_def)
  show ?thesis
    using assms(1,2) l1 l2 keq z
    unfolding apply_scope_def Let_def
    by (auto simp: )
qed


lemma round_half_even_ge:
  assumes "of_int m \<le> q" shows "m \<le> round_half_even q"
proof -
  have "m \<le> \<lfloor>q\<rfloor>" using assms by (simp add: le_floor_iff)
  then show ?thesis by (simp add: round_half_even_def Let_def)
qed

lemma fl_round_ge_int:
  assumes n: "0 \<le> n" "of_int n \<le> x" and x: "x < 2 ^ 53"
  shows "of_int n \<le> fl_round x"
proof (cases "x = 0")
  case True
  then show ?thesis using n by (simp add: fl_round_def)
next
  case False
  have "0 \<le> (of_int n :: rat)" using n(1) by simp
  then have "0 \<le> x" using n(2) by (rule order_trans)
  then have xp: "0 < x" using False by simp
  have e52: "fl_exponent x \<le> 52" using fl_exponent_small xp x by simp
  define e where "e = max (fl_exponent x) (- 1022)"
  define u where "u = (2::rat) powi (e - 52)"
  have ele: "e \<le> 52" using e52 by (simp add: e_def)
  have up: "0 < u" by (simp add: u_def)
  have uinv: "1 / u = 2 ^ nat (52 - e)"
    using ele unfolding u_def
    by (simp add: power_int_def field_simps)
  define M where "M = n * 2 ^ nat (52 - e)"
  have Mu: "of_int M * u = (of_int n :: rat)"
    unfolding M_def using uinv up by (simp add: field_simps)
  have "of_int n / u \<le> x / u" using n up by (simp add: divide_right_mono)
  moreover have "of_int n / u = of_int M" using Mu up by (simp add: field_simps)
  ultimately have "of_int M \<le> x / u" by simp
  then have "M \<le> round_half_even (x / u)" by (rule round_half_even_ge)
  then have "of_int M * u \<le> of_int (round_half_even (x / u)) * u"
    using up by simp
  moreover have "fl_round x = of_int (round_half_even (x / u)) * u"
    using xp unfolding fl_round_def Let_def u_def e_def by simp
  ultimately show ?thesis using Mu by simp
qed

lemma floor_fl_round_bounds:
  assumes "0 \<le> p" and "p \<le> of_int n" and "n < 2 ^ 53"
  shows "\<lfloor>p\<rfloor> \<le> \<lfloor>fl_round p\<rfloor>" and "\<lfloor>fl_round p\<rfloor> \<le> \<lfloor>p\<rfloor> + 1"
proof -
  have n53: "of_int n < (2::rat) ^ 53"
    using assms(3) by (metis of_int_less_iff of_int_numeral of_int_power)
  have "of_int \<lfloor>p\<rfloor> \<le> fl_round p"
    using assms(1,2) n53 by (intro fl_round_ge_int) simp_all
  then show "\<lfloor>p\<rfloor> \<le> \<lfloor>fl_round p\<rfloor>" by (simp add: le_floor_iff)
  have c: "\<lceil>p\<rceil> \<le> n" using assms(2) by (simp add: ceiling_le_iff)
  have c2: "\<lceil>p\<rceil> < 2 ^ 53" using c assms(3) by (rule le_less_trans)
  have "fl_round p \<le> of_int \<lceil>p\<rceil>"
    using fl_round_le_int [OF assms(1) le_of_int_ceiling c2] by simp
  then have "\<lfloor>fl_round p\<rfloor> \<le> \<lceil>p\<rceil>" by (simp add: floor_le_iff)
  moreover have "\<lceil>p\<rceil> \<le> \<lfloor>p\<rfloor> + 1" by (simp add: ceiling_le_iff) linarith
  ultimately show "\<lfloor>fl_round p\<rfloor> \<le> \<lfloor>p\<rfloor> + 1" by simp
qed


text \<open>
  Claim C2, as the code has it. The claim reads the floor as that of the exact product.
  The code takes the floor of the float product \<^verbatim>\<open>abs(fraction) * total\<close>, which is the
  exact product rounded to binary64: for every list of fewer than \<open>2\<^sup>5\<^sup>3\<close> commits and
  every fraction in \<open>[-1, 1]\<close> the selected list has length
  \<open>\<lfloor>fl_round (\<bar>fraction\<bar> * N)\<rfloor>\<close>. That length is the exact floor or one more, and it is
  the exact floor wherever the product is a binary64 number itself.
\<close>

theorem apply_scope_length:
  assumes "- 1 \<le> fr" and "fr \<le> 1" and "length commits < 2 ^ 53"
  shows "\<exists>selected untouched.
           apply_scope commits fr = Inr (selected, untouched)
         \<and> int (length selected) = \<lfloor>fl_round (\<bar>fr\<bar> * of_nat (length commits))\<rfloor>
         \<and> \<lfloor>\<bar>fr\<bar> * of_nat (length commits)\<rfloor> \<le> int (length selected)
         \<and> int (length selected) \<le> \<lfloor>\<bar>fr\<bar> * of_nat (length commits)\<rfloor> + 1
         \<and> (fl_round (\<bar>fr\<bar> * of_nat (length commits)) = \<bar>fr\<bar> * of_nat (length commits)
              \<longrightarrow> int (length selected) = \<lfloor>\<bar>fr\<bar> * of_nat (length commits)\<rfloor>)"
proof -
  let ?p = "\<bar>fr\<bar> * of_nat (length commits)"
  have n: "int (length commits) < 2 ^ 53"
    using assms(3) by (simp add: nat_less_iff [symmetric])
  have p: "0 \<le> ?p" "?p \<le> of_int (int (length commits))"
    using assms(1,2) by (simp_all add: mult_left_le_one_le)
  note b = floor_fl_round_bounds [OF p n]
  from apply_scope_length_rounded [OF assms] obtain selected untouched where
    s: "apply_scope commits fr = Inr (selected, untouched)"
       "int (length selected) = \<lfloor>fl_round ?p\<rfloor>"
    by blast
  show ?thesis using s b by auto
qed

theorem apply_scope_length_witness:
  "- 1 \<le> (3152519739159347 / 4503599627370496 :: rat)
   \<and> (3152519739159347 / 4503599627370496 :: rat) \<le> 1
   \<and> length (sample_history 10) < 2 ^ 53
   \<and> (\<exists>selected untouched.
          apply_scope (sample_history 10) (3152519739159347 / 4503599627370496)
            = Inr (selected, untouched)
        \<and> int (length selected)
            = \<lfloor>fl_round (\<bar>3152519739159347 / 4503599627370496\<bar>
                 * of_nat (length (sample_history 10)))\<rfloor>)"
proof -
  have h1: "- 1 \<le> (3152519739159347 / 4503599627370496 :: rat)" by simp
  have h2: "(3152519739159347 / 4503599627370496 :: rat) \<le> 1" by simp
  have h3: "length (sample_history 10) < 2 ^ 53" by (simp add: sample_history_def)
  show ?thesis using h1 h2 h3 apply_scope_length [OF h1 h2 h3] by blast
qed

text \<open>
  The claim as stated fails at the float \<^verbatim>\<open>0.7\<close> (the binary64 number
  \<open>3152519739159347 / 2\<^sup>5\<^sup>2\<close>, just below \<open>7/10\<close>) and ten commits: the exact product is
  \<open>7 - 2\<^sup>-\<^sup>5\<^sup>1\<close>, whose floor is \<open>6\<close>; the float product is the tie between two binary64
  numbers and rounds to \<open>7.0\<close>, so seven commits are selected.
\<close>

theorem apply_scope_exact_floor_counterexample:
  "apply_scope (sample_history 10) (3152519739159347 / 4503599627370496)
     = Inr (take 7 (sample_history 10), drop 7 (sample_history 10))
   \<and> length (take 7 (sample_history 10)) = 7
   \<and> \<lfloor>\<bar>3152519739159347 / 4503599627370496 :: rat\<bar> * of_nat (length (sample_history 10))\<rfloor> = 6"
  by code_simp

section \<open>Properties of validation\<close>

text \<open>
  Claim C8. \<open>validate_config\<close> fails with a \<open>ValidationError\<close> when the mode is author or
  commit and a synthetic section is present: the path is that of the first section
  present, in the order calendar, work_patterns, randomness, and the message names the
  section and the mode. When the mode is synthetic and a section is missing, it fails
  with the path of the first missing section, in the same order.
\<close>

theorem validate_config_sections:
  "(mode (Config.timestamp cfg) \<in> {''author'', ''commit''} \<and> Config.calendar cfg \<noteq> None \<longrightarrow>
      validate_config lib cfg
        = Inl (ValidationError ''calendar''
                 (''calendar is not allowed in '' @ mode (Config.timestamp cfg) @ '' mode'')))
   \<and> (mode (Config.timestamp cfg) \<in> {''author'', ''commit''} \<and> Config.calendar cfg = None
        \<and> Config.work_patterns cfg \<noteq> None \<longrightarrow>
      validate_config lib cfg
        = Inl (ValidationError ''work_patterns''
                 (''work_patterns is not allowed in '' @ mode (Config.timestamp cfg) @ '' mode'')))
   \<and> (mode (Config.timestamp cfg) \<in> {''author'', ''commit''} \<and> Config.calendar cfg = None
        \<and> Config.work_patterns cfg = None \<and> Config.randomness cfg \<noteq> None \<longrightarrow>
      validate_config lib cfg
        = Inl (ValidationError ''randomness''
                 (''randomness is not allowed in '' @ mode (Config.timestamp cfg) @ '' mode'')))
   \<and> (mode (Config.timestamp cfg) = ''synthetic'' \<and> Config.calendar cfg = None \<longrightarrow>
      validate_config lib cfg
        = Inl (ValidationError ''calendar'' ''missing calendar for synthetic mode''))
   \<and> (mode (Config.timestamp cfg) = ''synthetic'' \<and> Config.calendar cfg \<noteq> None
        \<and> Config.work_patterns cfg = None \<longrightarrow>
      validate_config lib cfg
        = Inl (ValidationError ''work_patterns'' ''missing work_patterns for synthetic mode''))
   \<and> (mode (Config.timestamp cfg) = ''synthetic'' \<and> Config.calendar cfg \<noteq> None
        \<and> Config.work_patterns cfg \<noteq> None \<and> Config.randomness cfg = None \<longrightarrow>
      validate_config lib cfg
        = Inl (ValidationError ''randomness'' ''missing randomness for synthetic mode''))"
  by (auto simp: validate_config_def forbid_synthetic_sections_def Let_def)

theorem validate_config_sections_witness:
  "validate_config sample_pylib (raw_config ''author'' (Some sample_calendar_raw) None None)
     = Inl (ValidationError ''calendar'' ''calendar is not allowed in author mode'')
   \<and> validate_config sample_pylib (raw_config ''commit'' None (Some sample_work_raw) None)
     = Inl (ValidationError ''work_patterns'' ''work_patterns is not allowed in commit mode'')
   \<and> validate_config sample_pylib (raw_config ''author'' None None (Some sample_randomness_raw))
     = Inl (ValidationError ''randomness'' ''randomness is not allowed in author mode'')
   \<and> validate_config sample_pylib
       (raw_config ''synthetic'' None (Some sample_work_raw) (Some sample_randomness_raw))
     = Inl (ValidationError ''calendar'' ''missing calendar for synthetic mode'')
   \<and> validate_config sample_pylib
       (raw_config ''synthetic'' (Some sample_calendar_raw) None (Some sample_randomness_raw))
     = Inl (ValidationError ''work_patterns'' ''missing work_patterns for synthetic mode'')
   \<and> validate_config sample_pylib
       (raw_config ''synthetic'' (Some sample_calendar_raw) (Some sample_work_raw) None)
     = Inl (ValidationError ''randomness'' ''missing randomness for synthetic mode'')"
  using
    validate_config_sections
      [of "raw_config ''author'' (Some sample_calendar_raw) None None" sample_pylib]
    validate_config_sections
      [of "raw_config ''commit'' None (Some sample_work_raw) None" sample_pylib]
    validate_config_sections
      [of "raw_config ''author'' None None (Some sample_randomness_raw)" sample_pylib]
    validate_config_sections
      [of "raw_config ''synthetic'' None (Some sample_work_raw) (Some sample_randomness_raw)"
          sample_pylib]
    validate_config_sections
      [of "raw_config ''synthetic'' (Some sample_calendar_raw) None (Some sample_randomness_raw)"
          sample_pylib]
    validate_config_sections
      [of "raw_config ''synthetic'' (Some sample_calendar_raw) (Some sample_work_raw) None"
          sample_pylib]
  by (simp add: raw_config_def)

text \<open>
  Claim C10. Whenever \<open>validate_config\<close> succeeds, the result carries the timestamp and
  scope fields of the input unchanged (so the same mode string and the same fraction),
  and for the author and commit modes its calendar, work_patterns and randomness fields
  are all \<open>None\<close>.
\<close>

theorem validate_config_frame:
  assumes "validate_config lib cfg = Inr v"
  shows "ValidatedConfig.timestamp v = Config.timestamp cfg
       \<and> ValidatedConfig.scope v = Config.scope cfg
       \<and> mode (ValidatedConfig.timestamp v) = mode (Config.timestamp cfg)
       \<and> fraction (ValidatedConfig.scope v) = fraction (Config.scope cfg)
       \<and> (mode (Config.timestamp cfg) \<in> {''author'', ''commit''} \<longrightarrow>
            ValidatedConfig.calendar v = None
          \<and> ValidatedConfig.work_patterns v = None
          \<and> ValidatedConfig.randomness v = None)"
  using assms
  by (auto simp: validate_config_def Let_def split: if_splits sum.splits option.splits)

lemma sample_author_validates:
  "validate_config sample_pylib (raw_config ''author'' None None None)
     = Inr (plain_config ''author'')"
  by (simp add: validate_config_def raw_config_def plain_config_def
        forbid_synthetic_sections_def)

lemma sample_validates:
  "validate_config sample_pylib
     (raw_config ''synthetic'' (Some sample_calendar_raw) (Some sample_work_raw)
        (Some sample_randomness_raw))
   = Inr sample_config"
  by code_simp

theorem validate_config_frame_witness:
  "validate_config sample_pylib (raw_config ''author'' None None None)
     = Inr (plain_config ''author'')
   \<and> ValidatedConfig.timestamp (plain_config ''author'')
       = Config.timestamp (raw_config ''author'' None None None)
   \<and> ValidatedConfig.scope (plain_config ''author'')
       = Config.scope (raw_config ''author'' None None None)
   \<and> ValidatedConfig.calendar (plain_config ''author'') = None
   \<and> ValidatedConfig.work_patterns (plain_config ''author'') = None
   \<and> ValidatedConfig.randomness (plain_config ''author'') = None
   \<and> validate_config sample_pylib
       (raw_config ''synthetic'' (Some sample_calendar_raw) (Some sample_work_raw)
          (Some sample_randomness_raw))
     = Inr sample_config
   \<and> ValidatedConfig.timestamp sample_config
       = Config.timestamp (raw_config ''synthetic'' (Some sample_calendar_raw)
           (Some sample_work_raw) (Some sample_randomness_raw))
   \<and> ValidatedConfig.scope sample_config
       = Config.scope (raw_config ''synthetic'' (Some sample_calendar_raw)
           (Some sample_work_raw) (Some sample_randomness_raw))"
  using validate_config_frame [OF sample_author_validates]
    validate_config_frame [OF sample_validates]
    sample_author_validates sample_validates
  by (simp add: raw_config_def)

subsection \<open>A validated synthetic configuration is well formed\<close>

lemma parse_time_valid: "parse_time lib path v = Inr t \<Longrightarrow> valid_time t"
  by (auto simp: parse_time_def valid_time_def Let_def split: if_splits option.splits)

lemma validate_work_block_valid:
  "validate_work_block lib path block = Inr b \<Longrightarrow> valid_block b"
  apply (auto simp: validate_work_block_def valid_block_def Let_def
           split: if_splits option.splits sum.splits)
   apply (erule parse_time_valid)+
  done

lemma validate_work_patterns_valid:
  "validate_work_patterns lib wp = Inr work \<Longrightarrow> valid_work work"
  by (auto simp: validate_work_patterns_def valid_work_def
           dest: validate_work_block_valid split: if_splits option.splits sum.splits)

lemma validate_randomness_valid:
  "validate_randomness rnd = Inr r \<Longrightarrow> valid_randomness r"
  by (auto simp: validate_randomness_def valid_randomness_def require_int_def Let_def
           split: if_splits option.splits sum.splits)

lemma validate_calendar_valid:
  "validate_calendar lib cal = Inr c \<Longrightarrow> cal_start c \<le> cal_end c"
  by (auto simp: validate_calendar_def Let_def split: if_splits option.splits sum.splits)

lemma validate_config_validated:
  assumes "validate_config lib cfg = Inr v" and "mode (Config.timestamp cfg) = ''synthetic''"
  shows "validated_synthetic v"
  using assms
  by (auto simp: validate_config_def validated_synthetic_def Let_def
           dest: validate_calendar_valid validate_work_patterns_valid validate_randomness_valid
           split: if_splits option.splits sum.splits)

section \<open>Properties of the engine\<close>

subsection \<open>Author and commit modes\<close>

lemma fold_upd_other:
  "x \<notin> k ` set cs \<Longrightarrow> fold (\<lambda>c m. m(k c \<mapsto> f c)) cs m0 x = m0 x"
  by (induction cs arbitrary: m0) auto

lemma fold_upd_lookup:
  assumes "inj_on k (set cs)" and "c \<in> set cs"
  shows "fold (\<lambda>c m. m(k c \<mapsto> f c)) cs m0 (k c) = Some (f c)"
  using assms
proof (induction cs arbitrary: m0)
  case Nil
  then show ?case by simp
next
  case (Cons a cs)
  show ?case
  proof (cases "c \<in> set cs")
    case True
    moreover have "inj_on k (set cs)" using Cons.prems(1) by (simp add: inj_on_def)
    ultimately show ?thesis using Cons.IH by simp
  next
    case False
    then have ca: "c = a" using Cons.prems(2) by simp
    have "k a \<notin> k ` set cs"
    proof
      assume "k a \<in> k ` set cs"
      then obtain b where b: "b \<in> set cs" "k b = k a" by auto
      then have "b = a" using Cons.prems(1) by (auto simp: inj_on_def)
      then show False using b(1) False ca by simp
    qed
    then have "fold (\<lambda>c m. m(k c \<mapsto> f c)) cs (m0(k a \<mapsto> f a)) (k a)
                 = (m0(k a \<mapsto> f a)) (k a)"
      by (rule fold_upd_other)
    moreover have "fold (\<lambda>c m. m(k c \<mapsto> f c)) (a # cs) m0
                 = fold (\<lambda>c m. m(k c \<mapsto> f c)) cs (m0(k a \<mapsto> f a))"
      by (simp del: fun_upd_apply)
    ultimately have "fold (\<lambda>c m. m(k c \<mapsto> f c)) (a # cs) m0 (k a) = Some (f a)"
      by (simp del: fold_simps)
    then show ?thesis unfolding ca .
  qed
qed

lemma sample_history_distinct: "distinct (map hash (sample_history n))"
proof -
  have "inj_on (\<lambda>i. hash (sample_commit i)) A" for A
  proof (rule inj_onI)
    fix i j assume "hash (sample_commit i) = hash (sample_commit j)"
    then have "length (hash (sample_commit i)) = length (hash (sample_commit j))" by simp
    then show "i = j" by (simp add: sample_commit_def)
  qed
  then show ?thesis
    by (simp add: sample_history_def distinct_map comp_def inj_on_def)
qed

lemma sample_history_inj: "inj_on hash (set (sample_history n))"
  using sample_history_distinct [of n] by (simp add: distinct_map)

text \<open>
  Claim C3. For every list of selected commits whose hashes identify them (two commits
  of the list with the same hash are the same commit, as for content-addressed
  identifiers) and every configuration, \<open>compute_timestamps\<close> in author mode maps the
  hash of every selected commit to that commit's own author date, and in commit mode to
  that commit's own committer date.
\<close>

theorem compute_timestamps_author_commit:
  assumes "inj_on hash (set commits)" and "c \<in> set commits"
  shows "(mode (ValidatedConfig.timestamp config) = ''author'' \<longrightarrow>
            (\<exists>m. compute_timestamps R entropy commits config = Inr m
                 \<and> m (hash c) = Some (author_date c)))
       \<and> (mode (ValidatedConfig.timestamp config) = ''commit'' \<longrightarrow>
            (\<exists>m. compute_timestamps R entropy commits config = Inr m
                 \<and> m (hash c) = Some (committer_date c)))"
  using assms
  by (simp add: compute_timestamps_def author_mode_def commit_mode_def fold_upd_lookup)

theorem compute_timestamps_author_commit_witness:
  "inj_on hash (set (sample_history 3)) \<and> sample_commit 1 \<in> set (sample_history 3)
   \<and> (\<exists>m. compute_timestamps sample_random 0 (sample_history 3) (plain_config ''author'') = Inr m
          \<and> m (hash (sample_commit 1)) = Some (author_date (sample_commit 1)))
   \<and> (\<exists>m. compute_timestamps sample_random 0 (sample_history 3) (plain_config ''commit'') = Inr m
          \<and> m (hash (sample_commit 1)) = Some (committer_date (sample_commit 1)))"
proof -
  have h1: "inj_on hash (set (sample_history 3))"
    by (rule sample_history_inj)
  have h2: "sample_commit 1 \<in> set (sample_history 3)"
    by (simp add: sample_history_def)
  have ma: "mode (ValidatedConfig.timestamp (plain_config ''author'')) = ''author''"
    and mc: "mode (ValidatedConfig.timestamp (plain_config ''commit'')) = ''commit''"
    by (simp_all add: plain_config_def)
  show ?thesis
    using h1 h2 ma mc
      compute_timestamps_author_commit [OF h1 h2, of "plain_config ''author''" sample_random 0]
      compute_timestamps_author_commit [OF h1 h2, of "plain_config ''commit''" sample_random 0]
    by blast
qed

subsection \<open>The empty selection\<close>

text \<open>
  Claim C9. Called with an empty list, \<open>compute_timestamps\<close> returns the empty map in
  each of the three modes, whatever the configuration holds: in synthetic mode the test
  for the empty list comes first, so no engine error is raised even when the calendar,
  work_patterns or randomness section is absent or no date of the calendar has an
  enabled work block.
\<close>

theorem compute_timestamps_empty:
  assumes "mode (ValidatedConfig.timestamp config) \<in> {''author'', ''commit'', ''synthetic''}"
  shows "compute_timestamps R entropy [] config = Inr Map.empty"
  using assms
  by (auto simp: compute_timestamps_def author_mode_def commit_mode_def synthetic_mode_def)

theorem compute_timestamps_empty_witness:
  "mode (ValidatedConfig.timestamp (plain_config ''synthetic''))
     \<in> {''author'', ''commit'', ''synthetic''}
   \<and> ValidatedConfig.calendar (plain_config ''synthetic'') = None
   \<and> compute_timestamps sample_random 0 [] (plain_config ''synthetic'') = Inr Map.empty"
proof -
  have h: "mode (ValidatedConfig.timestamp (plain_config ''synthetic''))
             \<in> {''author'', ''commit'', ''synthetic''}"
    by (simp add: plain_config_def)
  show ?thesis using h compute_timestamps_empty [OF h, of sample_random 0]
    by (simp add: plain_config_def)
qed

subsection \<open>Determinism under a seed\<close>

text \<open>
  Claim C7. With a seed, the result of \<open>compute_timestamps\<close> is a function of the commit
  list and the configuration alone: two invocations with the same seed, commits and
  configuration return the same map (or fail alike), whatever generator the operating
  system's entropy would have given either of them. The model shows the rest of the
  claim in its types: \<open>compute_timestamps\<close> takes no generator state from an earlier
  call and returns none; the generator is built inside \<open>synthetic_mode\<close>.
\<close>

theorem compute_timestamps_seeded:
  assumes "ValidatedConfig.randomness config = Some rnd" and "seed rnd = Some s"
  shows "compute_timestamps R entropy1 commits config
           = compute_timestamps R entropy2 commits config"
  unfolding compute_timestamps_def synthetic_mode_def Let_def assms option.sel option.case
  by (rule refl)

subsection \<open>A time picked in a window lies in the window\<close>

lemma minute_floor:
  "(c div 3600) * 3600 + ((c mod 3600) div 60) * 60 = c - c mod (60::int)"
proof -
  have "(c mod 3600) mod 60 = c mod 60"
    by (simp add: mod_mod_cancel)
  moreover have "c mod 3600 = ((c mod 3600) div 60) * 60 + (c mod 3600) mod 60"
    by simp
  moreover have "c = (c div 3600) * 3600 + c mod 3600"
    by simp
  ultimately show ?thesis by linarith
qed

lemma mk_time_seconds:
  assumes "mk_time h m s = Inr t"
  shows "time_seconds t = h * 3600 + m * 60 + s" and "0 \<le> s" and "s \<le> 59"
  using assms by (auto simp: mk_time_def time_seconds_def split: if_splits)

lemma pick_time_in_window_cases:
  assumes "pick_time_in_window R g (s, e) sec_min sec_max = Inr (t, g')"
  obtains x sec where
    "\<not> hour e * 3600 + minute e * 60 + 59 < hour s * 3600 + minute s * 60"
    "mk_time (max (hour s * 3600 + minute s * 60) (min (x - x mod 60) (hour e * 3600 + minute e * 60 + 59)) div 3600)
           ((max (hour s * 3600 + minute s * 60) (min (x - x mod 60) (hour e * 3600 + minute e * 60 + 59)) mod 3600) div 60) sec = Inr t"
proof -
  let ?lo = "hour s * 3600 + minute s * 60"
  let ?hi = "hour e * 3600 + minute e * 60 + 59"
  note A = assms [unfolded pick_time_in_window_def Let_def fst_conv snd_conv]
  have ne: "\<not> ?hi < ?lo"
  proof
    assume h: "?hi < ?lo"
    show False using A unfolding if_P [OF h] by (simp only: sum.distinct)
  qed
  note B = A [unfolded if_not_P [OF ne]]
  obtain x g1 where d: "randint R g ?lo ?hi = Inr (x, g1)"
  proof (cases "randint R g ?lo ?hi")
    case (Inl err)
    show ?thesis using B unfolding Inl by (simp only: sum.case sum.distinct)
  next
    case (Inr p)
    then show ?thesis using that by (cases p) blast
  qed
  note C = B [unfolded d sum.case prod.case]
  obtain sec g2 where d2: "randint R g1 sec_min sec_max = Inr (sec, g2)"
  proof (cases "randint R g1 sec_min sec_max")
    case (Inl err)
    show ?thesis using C unfolding Inl by (simp only: sum.case sum.distinct)
  next
    case (Inr p)
    then show ?thesis using that by (cases p) blast
  qed
  note D = C [unfolded d2 sum.case prod.case]
  have "mk_time (max ?lo (min (x - x mod 60) ?hi) div 3600)
           ((max ?lo (min (x - x mod 60) ?hi) mod 3600) div 60) sec = Inr t"
  proof (cases "mk_time (max ?lo (min (x - x mod 60) ?hi) div 3600)
           ((max ?lo (min (x - x mod 60) ?hi) mod 3600) div 60) sec")
    case (Inl err)
    show ?thesis using D unfolding Inl by (simp only: sum.case sum.distinct)
  next
    case (Inr t')
    show ?thesis using D unfolding Inr by (simp only: sum.case sum.inject prod.inject)
  qed
  then show ?thesis using that ne by blast
qed

lemma pick_time_in_window_range:
  assumes "pick_time_in_window R g (s, e) sec_min sec_max = Inr (t, g')"
  shows "hour s * 3600 + minute s * 60 \<le> time_seconds t
       \<and> time_seconds t \<le> hour e * 3600 + minute e * 60 + 59"
proof -
  let ?lo = "hour s * 3600 + minute s * 60"
  let ?hi = "hour e * 3600 + minute e * 60 + 59"
  from assms obtain x sec where
    ne: "\<not> ?hi < ?lo" and
    t0: "mk_time (max ?lo (min (x - x mod 60) ?hi) div 3600)
           ((max ?lo (min (x - x mod 60) ?hi) mod 3600) div 60) sec = Inr t"
    by (rule pick_time_in_window_cases)
  define c where "c = max ?lo (min (x - x mod 60) ?hi)"
  have c: "?lo \<le> c" "c \<le> ?hi" using ne by (simp_all add: c_def)
  have t: "mk_time (c div 3600) ((c mod 3600) div 60) sec = Inr t"
    using t0 by (simp add: c_def)
  have ts: "time_seconds t = c - c mod 60 + sec" and sec: "0 \<le> sec" "sec \<le> 59"
    using mk_time_seconds [OF t] minute_floor [of c] by simp_all
  have fl: "c - c mod 60 = (c div 60) * 60"
    by (simp add: minus_mod_eq_div_mult)
  define S where "S = hour s * 60 + minute s"
  define E where "E = hour e * 60 + minute e"
  have lo_eq: "?lo = S * 60" and hi_eq: "?hi = E * 60 + 59"
    by (simp_all add: S_def E_def)
  have "(S * 60) div 60 \<le> c div 60"
    using c(1) unfolding lo_eq by (intro zdiv_mono1) simp_all
  then have "S \<le> c div 60" by simp
  then have lo: "?lo \<le> c - c mod 60"
    unfolding fl lo_eq by simp
  have "c div 60 \<le> (E * 60 + 59) div 60"
    using c(2) unfolding hi_eq by (intro zdiv_mono1) simp_all
  then have "c div 60 \<le> E" by simp
  then have hi: "c - c mod 60 + 59 \<le> ?hi"
    unfolding fl hi_eq by simp
  show ?thesis using ts sec lo hi by linarith
qed

lemma random_datetime_for_day_window:
  assumes "random_datetime_for_day R g day work sec_min sec_max z = Inr (r, g')"
  shows "\<exists>h. enabled (work_block_for_day day work)
           \<and> hours (work_block_for_day day work) = Some h
           \<and> dt_tzinfo r = z
           \<and> day * 86400 + start_s h \<le> dt_wall r
           \<and> dt_wall r \<le> day * 86400 + end_s h"
proof -
  let ?b = "work_block_for_day day work"
  from assms obtain h t where
    b: "enabled ?b" "hours ?b = Some h" and
    p: "pick_time_in_window R g (hours_start h, hours_end h) sec_min sec_max = Inr (t, g')" and
    r: "r = combine day t z"
    by (auto simp: random_datetime_for_day_def Let_def split: if_splits sum.splits)
  show ?thesis
    using b r pick_time_in_window_range [OF p]
    by (simp add: combine_def start_s_def end_s_def)
qed

lemma window_bounds_wall:
  "dt_wall (fst (window_bounds day h z)) = day * 86400 + start_s h"
  "dt_wall (snd (window_bounds day h z)) = day * 86400 + end_s h"
  by (simp_all add: window_bounds_def combine_def time_seconds_def start_s_def end_s_def)

subsection \<open>Advancing to the next valid instant\<close>

lemma window_bounds_tz:
  "dt_tzinfo (fst (window_bounds day h z)) = z"
  "dt_tzinfo (snd (window_bounds day h z)) = z"
  by (simp_all add: window_bounds_def combine_def)

lemma datetime_less_same:
  "dt_tzinfo a = dt_tzinfo b \<Longrightarrow> datetime_less a b = (dt_wall a < dt_wall b)"
  by (simp add: datetime_less_def)

lemma datetime_le_same:
  "dt_tzinfo a = dt_tzinfo b \<Longrightarrow> datetime_le a b = (dt_wall a \<le> dt_wall b)"
  by (simp add: datetime_le_def)

lemma next_valid_loop_result:
  assumes "next_valid_loop R g day cand end_day work sec_min sec_max z = Inr (r, g')"
    and "dt_wall cand < (day + 1) * 86400"
    and "dt_tzinfo cand = z"
  shows "dt_wall cand \<le> dt_wall r
       \<and> dt_tzinfo r = z
       \<and> (\<exists>d h. enabled (work_block_for_day d work)
                \<and> hours (work_block_for_day d work) = Some h
                \<and> d * 86400 + start_s h \<le> dt_wall r
                \<and> dt_wall r \<le> d * 86400 + end_s h)"
  using assms
proof (induction R g day cand end_day work sec_min sec_max z rule: next_valid_loop.induct)
  case (1 R g day cand end_day work sec_min sec_max z)
  let ?b = "work_block_for_day day work"
  let ?next = "combine (day + 1) \<lparr>hour = 0, minute = 0, second = 0\<rparr> z"
  have le: "day \<le> end_day"
    using "1.prems"(1) by (subst (asm) next_valid_loop.simps) (simp split: if_splits)
  have nextw: "dt_wall ?next = (day + 1) * 86400" and nextz: "dt_tzinfo ?next = z"
    by (simp_all add: combine_def time_seconds_def)
  have nextb: "dt_wall ?next < (day + 1 + 1) * 86400"
    unfolding nextw by simp
  show ?case
  proof (cases "\<not> enabled ?b \<or> hours ?b = None")
    case True
    from "1.prems"(1) le True have
      ok: "date_add_days day 1 = Inr (day + 1)" and
      rec: "next_valid_loop R g (day + 1) ?next end_day work sec_min sec_max z = Inr (r, g')"
      by (subst (asm) next_valid_loop.simps,
          auto simp: Let_def date_add_days_def split: if_splits sum.splits)+
    have "dt_wall ?next \<le> dt_wall r
       \<and> dt_tzinfo r = z
       \<and> (\<exists>d h. enabled (work_block_for_day d work)
                \<and> hours (work_block_for_day d work) = Some h
                \<and> d * 86400 + start_s h \<le> dt_wall r
                \<and> dt_wall r \<le> d * 86400 + end_s h)"
      by (rule "1.IH"(1) [OF le refl True ok rec nextb nextz])
    then show ?thesis using "1.prems"(2) nextw by auto
  next
    case False
    then obtain h where b: "enabled ?b" "hours ?b = Some h" by auto
    let ?w = "window_bounds day h z"
    have same: "dt_tzinfo cand = dt_tzinfo (fst ?w)" "dt_tzinfo (fst ?w) = dt_tzinfo cand"
      "dt_tzinfo cand = dt_tzinfo (snd ?w)"
      using "1.prems"(3) by (simp_all add: window_bounds_tz)
    show ?thesis
    proof (cases "datetime_less cand (fst ?w)")
      case True
      with "1.prems"(1) le b have
        "random_datetime_for_day R g day work sec_min sec_max z = Inr (r, g')"
        by (subst (asm) next_valid_loop.simps) (simp add: Let_def)
      from random_datetime_for_day_window [OF this] b True
      show ?thesis
        by (auto simp: datetime_less_same [OF same(1)] window_bounds_wall)
    next
      case less: False
      show ?thesis
      proof (cases "datetime_le (fst ?w) cand \<and> datetime_le cand (snd ?w)")
        case True
        with "1.prems"(1) le b less have "r = cand"
          by (subst (asm) next_valid_loop.simps) (simp add: Let_def)
        then show ?thesis
          using True b "1.prems"(3)
          by (auto simp: datetime_le_same [OF same(2)] datetime_le_same [OF same(3)]
                window_bounds_wall)
      next
        case inw: False
        from "1.prems"(1) le b less inw have
          ok: "date_add_days day 1 = Inr (day + 1)" and
          rec: "next_valid_loop R g (day + 1) ?next end_day work sec_min sec_max z = Inr (r, g')"
          by (subst (asm) next_valid_loop.simps,
              auto simp: Let_def date_add_days_def split: if_splits sum.splits)+
        have nb: "\<not> (\<not> enabled ?b \<or> hours ?b = None)" using b by simp
        have w: "?w = window_bounds day (the (hours ?b)) z" using b by simp
        have l2: "\<not> datetime_less cand (fst ?w)" using less .
        have "dt_wall ?next \<le> dt_wall r
           \<and> dt_tzinfo r = z
           \<and> (\<exists>d h. enabled (work_block_for_day d work)
                    \<and> hours (work_block_for_day d work) = Some h
                    \<and> d * 86400 + start_s h \<le> dt_wall r
                    \<and> dt_wall r \<le> d * 86400 + end_s h)"
          by (rule "1.IH"(2) [OF le refl nb w l2 inw ok rec nextb nextz])
        then show ?thesis using "1.prems"(2) nextw by auto
      qed
    qed
  qed
qed

lemma valid_block_bounds:
  assumes "valid_block b" and "hours b = Some h"
  shows "0 \<le> start_s h" and "end_s h < 86400"
  using assms
  by (auto simp: valid_block_def valid_time_def start_s_def end_s_def)

lemma window_in_day:
  assumes "valid_work work"
    and "enabled (work_block_for_day d work)"
    and "hours (work_block_for_day d work) = Some h"
    and "d * 86400 + start_s h \<le> dt_wall r"
    and "dt_wall r \<le> d * 86400 + end_s h"
  shows "in_work_window work r"
proof -
  have "valid_block (work_block_for_day d work)"
    using assms(1) by (simp add: valid_work_def work_block_for_day_def)
  note b = valid_block_bounds [OF this assms(3)]
  define x where "x = dt_wall r - d * 86400"
  have x: "0 \<le> x" "x < 86400" "start_s h \<le> x" "x \<le> end_s h"
    using assms(4,5) b by (simp_all add: x_def)
  have w: "dt_wall r = x + d * 86400" by (simp add: x_def)
  have "dt_wall r div 86400 = d" "dt_wall r mod 86400 = x"
    unfolding w using x(1,2) by simp_all
  then show ?thesis
    using assms(2,3) x(3,4) by (simp add: in_work_window_def date_of_def)
qed

lemma next_valid_datetime_result:
  assumes "next_valid_datetime R g cand end_day work sec_min sec_max z = Inr (r, g')"
    and "dt_tzinfo cand = z"
  shows "dt_wall cand \<le> dt_wall r"
    and "dt_tzinfo r = z"
    and "valid_work work \<Longrightarrow> in_work_window work r"
proof -
  have "dt_wall cand < (date_of cand + 1) * 86400"
  proof -
    have a: "(date_of cand + 1) * 86400 = (dt_wall cand div 86400) * 86400 + 86400"
      by (simp add: date_of_def algebra_simps)
    have b: "(dt_wall cand div 86400) * 86400 = dt_wall cand - dt_wall cand mod 86400"
      by (simp add: minus_mod_eq_div_mult)
    have c: "dt_wall cand mod 86400 < 86400" by simp
    show ?thesis using a b c by linarith
  qed
  note res = next_valid_loop_result [OF assms(1) [unfolded next_valid_datetime_def] this assms(2)]
  show "dt_wall cand \<le> dt_wall r" using res by simp
  show "dt_tzinfo r = z" using res by simp
  show "valid_work work \<Longrightarrow> in_work_window work r"
    using res window_in_day by blast
qed

lemma randint_range:
  assumes "draws_in_range R" and "randint R g a b = Inr (v, g')"
  shows "a \<le> v" and "v \<le> b"
proof -
  from assms(2) have ab: "a \<le> b" and d: "draw R g a b = (v, g')"
    by (auto simp: randint_def split: if_splits)
  from assms(1) ab have "a \<le> fst (draw R g a b) \<and> fst (draw R g a b) \<le> b"
    unfolding draws_in_range_def by blast
  then show "a \<le> v" and "v \<le> b" using d by simp_all
qed

lemma random_gap_nonneg:
  assumes "draws_in_range R" and "0 \<le> gap_min" and "0 \<le> sec_min"
    and "random_gap R g gap_min gap_max sec_min sec_max = Inr (gap, g')"
  shows "0 \<le> gap"
proof -
  from assms(4) obtain m g1 s where
    m: "randint R g gap_min gap_max = Inr (m, g1)" and
    s: "randint R g1 sec_min sec_max = Inr (s, g')" and
    gap: "gap = m * 60 + s"
    by (auto simp: random_gap_def split: sum.splits prod.splits)
  have "0 \<le> m" "0 \<le> s"
    using randint_range(1) [OF assms(1) m] randint_range(1) [OF assms(1) s] assms(2,3)
    by simp_all
  then show ?thesis using gap by simp
qed

lemma datetime_add_result:
  assumes "datetime_add dt s = Inr r"
  shows "dt_wall r = dt_wall dt + s" and "dt_tzinfo r = dt_tzinfo dt"
  using assms by (auto simp: datetime_add_def Let_def split: if_splits)

lemma synthetic_loop_outputs:
  assumes "synthetic_loop R g cs current results gap_min gap_max sec_min sec_max
             end_day work z = Inr m"
    and "dt_tzinfo current = z"
  shows "\<exists>ts. length ts = length cs
            \<and> m = results(map hash cs [\<mapsto>] ts)
            \<and> (\<forall>t \<in> set ts. dt_tzinfo t = z)
            \<and> (valid_work work \<longrightarrow> (\<forall>t \<in> set ts. in_work_window work t))
            \<and> (draws_in_range R \<and> 0 \<le> gap_min \<and> 0 \<le> sec_min \<longrightarrow>
                  sorted (map dt_wall (current # ts)))"
  using assms
proof (induction cs arbitrary: g current results)
  case Nil
  then show ?case by simp
next
  case (Cons c cs)
  from Cons.prems(1) obtain gap g1 cand cur' g2 where
    gp: "random_gap R g gap_min gap_max sec_min sec_max = Inr (gap, g1)" and
    ad: "datetime_add current gap = Inr cand" and
    nv: "next_valid_datetime R g1 cand end_day work sec_min sec_max z = Inr (cur', g2)" and
    rec: "synthetic_loop R g2 cs cur' (results(hash c \<mapsto> cur')) gap_min gap_max
            sec_min sec_max end_day work z = Inr m"
    by (auto split: sum.splits prod.splits)
  have tzc: "dt_tzinfo cand = z"
    using datetime_add_result(2) [OF ad] Cons.prems(2) by simp
  note nvr = next_valid_datetime_result [OF nv tzc]
  have tz': "dt_tzinfo cur' = z" using nvr(2) by simp
  from Cons.IH [OF rec tz'] obtain ts where
    ts: "length ts = length cs"
      "m = (results(hash c \<mapsto> cur'))(map hash cs [\<mapsto>] ts)"
      "\<forall>t \<in> set ts. dt_tzinfo t = z"
      "valid_work work \<longrightarrow> (\<forall>t \<in> set ts. in_work_window work t)"
      "draws_in_range R \<and> 0 \<le> gap_min \<and> 0 \<le> sec_min \<longrightarrow>
         sorted (map dt_wall (cur' # ts))"
    by blast
  have step: "draws_in_range R \<and> 0 \<le> gap_min \<and> 0 \<le> sec_min \<longrightarrow> dt_wall current \<le> dt_wall cur'"
  proof
    assume a: "draws_in_range R \<and> 0 \<le> gap_min \<and> 0 \<le> sec_min"
    then have "draws_in_range R" "0 \<le> gap_min" "0 \<le> sec_min" by simp_all
    then have "0 \<le> gap" using gp by (rule random_gap_nonneg)
    then have "dt_wall current \<le> dt_wall cand"
      using datetime_add_result(1) [OF ad] by simp
    then show "dt_wall current \<le> dt_wall cur'"
      using nvr(1) by simp
  qed
  have "length (cur' # ts) = length (c # cs)" using ts(1) by simp
  moreover have "m = results(map hash (c # cs) [\<mapsto>] (cur' # ts))"
    using ts(2) by simp
  moreover have "\<forall>t \<in> set (cur' # ts). dt_tzinfo t = z"
    using ts(3) tz' by simp
  moreover have "valid_work work \<longrightarrow> (\<forall>t \<in> set (cur' # ts). in_work_window work t)"
    using ts(4) nvr(3) by simp
  moreover have "draws_in_range R \<and> 0 \<le> gap_min \<and> 0 \<le> sec_min \<longrightarrow>
      sorted (map dt_wall (current # cur' # ts))"
    using ts(5) step by auto
  ultimately show ?case by blast
qed

subsection \<open>The result map of synthetic mode\<close>

lemma map_upds_lookup_nth:
  assumes "distinct xs" and "length ys = length xs" and "i < length xs"
  shows "(m(xs [\<mapsto>] ys)) (xs ! i) = Some (ys ! i)"
  using assms
proof (induction xs arbitrary: ys i m)
  case Nil
  then show ?case by simp
next
  case (Cons x xs)
  then obtain y ys' where ys: "ys = y # ys'" by (cases ys) auto
  show ?case
  proof (cases i)
    case 0
    then show ?thesis using Cons.prems ys by (simp add: map_upds_apply_nontin)
  next
    case (Suc k)
    have "(m(x # xs [\<mapsto>] y # ys')) ((x # xs) ! Suc k) = ((m(x \<mapsto> y))(xs [\<mapsto>] ys')) (xs ! k)"
      by (simp only: map_upds_Cons nth_Cons_Suc)
    also have "\<dots> = Some (ys' ! k)"
      using Cons.prems ys Suc by (intro Cons.IH) auto
    finally show ?thesis using ys Suc by simp
  qed
qed

lemma map_upds_lookup_in:
  assumes "length ys = length xs" and "x \<in> set xs"
  shows "\<exists>y \<in> set ys. (m(xs [\<mapsto>] ys)) x = Some y"
  using assms
proof (induction xs arbitrary: ys m)
  case Nil
  then show ?case by simp
next
  case (Cons a xs)
  then obtain y ys' where ys: "ys = y # ys'" by (cases ys) auto
  have step: "m(a # xs [\<mapsto>] y # ys') = (m(a \<mapsto> y))(xs [\<mapsto>] ys')"
    by (simp only: map_upds_Cons)
  show ?case
  proof (cases "x \<in> set xs")
    case True
    have "\<exists>y' \<in> set ys'. ((m(a \<mapsto> y))(xs [\<mapsto>] ys')) x = Some y'"
      using Cons.prems ys True by (intro Cons.IH) auto
    then show ?thesis unfolding ys step by auto
  next
    case False
    then have "x = a" using Cons.prems(2) by simp
    then have "((m(a \<mapsto> y))(xs [\<mapsto>] ys')) x = Some y"
      using False by (simp add: map_upds_apply_nontin)
    then show ?thesis unfolding ys step by simp
  qed
qed

lemma map_upds_empty_value:
  assumes "length ys = length xs" and "(Map.empty(xs [\<mapsto>] ys)) x = Some y"
  shows "x \<in> set xs \<and> y \<in> set ys"
proof -
  have x: "x \<in> set xs"
  proof (rule ccontr)
    assume "x \<notin> set xs"
    then have "(Map.empty(xs [\<mapsto>] ys)) x = None" by (simp add: map_upds_apply_nontin)
    then show False using assms(2) by simp
  qed
  from map_upds_lookup_in [OF assms(1) x, of Map.empty] assms(2)
  show ?thesis using x by auto
qed

lemma synthetic_mode_outputs:
  assumes "synthetic_mode R entropy commits config = Inr m" and "commits \<noteq> []"
  shows "\<exists>cal work rnd ts.
            ValidatedConfig.calendar config = Some cal
          \<and> ValidatedConfig.work_patterns config = Some work
          \<and> ValidatedConfig.randomness config = Some rnd
          \<and> length ts = length commits
          \<and> m = Map.empty(map hash commits [\<mapsto>] ts)
          \<and> (\<forall>t \<in> set ts. dt_tzinfo t = tz cal)
          \<and> (valid_work work \<longrightarrow> (\<forall>t \<in> set ts. in_work_window work t))
          \<and> (draws_in_range R \<and> 0 \<le> gap_minutes_min rnd \<and> 0 \<le> seconds_min rnd \<longrightarrow>
                sorted (map dt_wall ts))"
proof -
  from assms(2) obtain c cs where cs: "commits = c # cs" by (cases commits) auto
  from assms obtain cal work rnd where
    sec: "ValidatedConfig.calendar config = Some cal"
         "ValidatedConfig.work_patterns config = Some work"
         "ValidatedConfig.randomness config = Some rnd"
    by (auto simp: synthetic_mode_def split: if_splits)
  define rng where
    "rng = (case seed rnd of None \<Rightarrow> entropy | Some s \<Rightarrow> new_random R s)"
  from assms sec obtain day0 current rng1 where
    d0: "next_enabled_day (cal_start cal) (cal_end cal) work = Inr day0" and
    rd: "random_datetime_for_day R rng day0 work (seconds_min rnd) (seconds_max rnd) (tz cal)
           = Inr (current, rng1)" and
    lp: "synthetic_loop R rng1 cs current (Map.empty(hash c \<mapsto> current))
           (gap_minutes_min rnd) (gap_minutes_max rnd) (seconds_min rnd) (seconds_max rnd)
           (cal_end cal) work (tz cal) = Inr m"
    by (auto simp: synthetic_mode_def Let_def cs rng_def split: sum.splits prod.splits)
  from random_datetime_for_day_window [OF rd] obtain h where
    w: "enabled (work_block_for_day day0 work)"
       "hours (work_block_for_day day0 work) = Some h"
       "dt_tzinfo current = tz cal"
       "day0 * 86400 + start_s h \<le> dt_wall current"
       "dt_wall current \<le> day0 * 86400 + end_s h"
    by blast
  from synthetic_loop_outputs [OF lp w(3)] obtain ts where
    ts: "length ts = length cs"
        "m = (Map.empty(hash c \<mapsto> current))(map hash cs [\<mapsto>] ts)"
        "\<forall>t \<in> set ts. dt_tzinfo t = tz cal"
        "valid_work work \<longrightarrow> (\<forall>t \<in> set ts. in_work_window work t)"
        "draws_in_range R \<and> 0 \<le> gap_minutes_min rnd \<and> 0 \<le> seconds_min rnd \<longrightarrow>
           sorted (map dt_wall (current # ts))"
    by blast
  have "length (current # ts) = length commits" using ts(1) cs by simp
  moreover have "m = Map.empty(map hash commits [\<mapsto>] (current # ts))"
    using ts(2) cs by simp
  moreover have "\<forall>t \<in> set (current # ts). dt_tzinfo t = tz cal"
    using ts(3) w(3) by simp
  moreover have "valid_work work \<longrightarrow> (\<forall>t \<in> set (current # ts). in_work_window work t)"
    using ts(4) window_in_day [OF _ w(1,2,4,5)] by simp
  ultimately show ?thesis using sec ts(5) by blast
qed

lemma compute_synthetic:
  "mode (ValidatedConfig.timestamp config) = ''synthetic'' \<Longrightarrow>
     compute_timestamps R entropy commits config = synthetic_mode R entropy commits config"
  by (simp add: compute_timestamps_def)


lemma zone_monotone_UTC: "zone_monotone UTC"
  by (simp add: zone_monotone_def)

lemma zone_monotone_fixed: "zone_monotone (FixedOffset s)"
  by (simp add: zone_monotone_def)

lemma zone_monotone_no_transition: "zone_monotone (ZoneInfo name base [])"
  by (simp add: zone_monotone_def)

lemma utc_seconds_mono:
  assumes "zone_monotone (dt_tzinfo a)" and "dt_tzinfo a = dt_tzinfo b"
    and "dt_wall a \<le> dt_wall b"
  shows "utc_seconds a \<le> utc_seconds b"
  using assms unfolding zone_monotone_def utc_seconds_def utcoffset_def by metis

text \<open>
  Claim C4, as the code has it. For every validated synthetic configuration and every
  generator whose draws lie within their bounds, the datetimes that \<open>compute_timestamps\<close>
  assigns to a list of commits with pairwise distinct hashes all carry the calendar's
  zone and are non-decreasing in the order of the list by their wall-clock readings,
  which is the order Python's \<^verbatim>\<open><=\<close> gives them; a zero gap is possible, so the order
  is not strict. As instants they are non-decreasing whenever the clock of the zone never
  jumps forward. In the same sense \<open>next_valid_datetime\<close> never returns a datetime
  earlier than a candidate that carries the calendar's zone, as every candidate of
  synthetic mode does.
\<close>

theorem synthetic_non_decreasing:
  assumes "draws_in_range R" and "validated_synthetic config"
  shows "(\<forall>commits m i j.
            distinct (map hash commits)
          \<and> compute_timestamps R entropy commits config = Inr m
          \<and> i \<le> j \<and> j < length commits \<longrightarrow>
            (\<exists>cal ti tj. ValidatedConfig.calendar config = Some cal
                    \<and> m (hash (commits ! i)) = Some ti \<and> m (hash (commits ! j)) = Some tj
                    \<and> dt_tzinfo ti = tz cal \<and> dt_tzinfo tj = tz cal
                    \<and> dt_wall ti \<le> dt_wall tj
                    \<and> datetime_le ti tj
                    \<and> (zone_monotone (tz cal) \<longrightarrow> utc_seconds ti \<le> utc_seconds tj)))
       \<and> (\<forall>g candidate end_day work sec_min sec_max z r g'.
            dt_tzinfo candidate = z
          \<and> next_valid_datetime R g candidate end_day work sec_min sec_max z = Inr (r, g')
            \<longrightarrow> dt_tzinfo r = z
              \<and> dt_wall candidate \<le> dt_wall r
              \<and> datetime_le candidate r
              \<and> (zone_monotone z \<longrightarrow> utc_seconds candidate \<le> utc_seconds r))"
proof (rule conjI; intro allI impI)
  fix commits m i j
  assume a: "distinct (map hash commits)
          \<and> compute_timestamps R entropy commits config = Inr m
          \<and> i \<le> j \<and> j < length commits"
  then have ne: "commits \<noteq> []" by auto
  have md: "mode (ValidatedConfig.timestamp config) = ''synthetic''"
    using assms(2) by (simp add: validated_synthetic_def)
  have sm: "synthetic_mode R entropy commits config = Inr m"
    using a by (simp add: compute_synthetic [OF md])
  from synthetic_mode_outputs [OF sm ne] obtain cal rnd ts where
    c: "ValidatedConfig.calendar config = Some cal" and
    r: "ValidatedConfig.randomness config = Some rnd" and
    ts: "length ts = length commits" "m = Map.empty(map hash commits [\<mapsto>] ts)" and
    tzs: "\<forall>t \<in> set ts. dt_tzinfo t = tz cal" and
    so: "draws_in_range R \<and> 0 \<le> gap_minutes_min rnd \<and> 0 \<le> seconds_min rnd \<longrightarrow>
           sorted (map dt_wall ts)"
    by blast
  have "valid_randomness rnd"
    using assms(2) r by (simp add: validated_synthetic_def)
  then have "sorted (map dt_wall ts)"
    using so assms(1) by (simp add: valid_randomness_def)
  then have le: "dt_wall (ts ! i) \<le> dt_wall (ts ! j)"
    using a ts(1) by (simp add: sorted_iff_nth_mono)
  have li: "i < length (map hash commits)" and lj: "j < length (map hash commits)"
    using a by simp_all
  have mi: "m (hash (commits ! i)) = Some (ts ! i)"
    using map_upds_lookup_nth [of "map hash commits" ts i Map.empty] a ts li by simp
  have mj: "m (hash (commits ! j)) = Some (ts ! j)"
    using map_upds_lookup_nth [of "map hash commits" ts j Map.empty] a ts lj by simp
  have zi: "dt_tzinfo (ts ! i) = tz cal" and zj: "dt_tzinfo (ts ! j) = tz cal"
    using tzs a ts(1) by simp_all
  have same: "dt_tzinfo (ts ! i) = dt_tzinfo (ts ! j)" using zi zj by simp
  have dle: "datetime_le (ts ! i) (ts ! j)"
    using le by (simp add: datetime_le_same [OF same])
  have mono: "zone_monotone (tz cal) \<longrightarrow> utc_seconds (ts ! i) \<le> utc_seconds (ts ! j)"
    using utc_seconds_mono [OF _ same le] zi by simp
  show "\<exists>cal ti tj. ValidatedConfig.calendar config = Some cal
          \<and> m (hash (commits ! i)) = Some ti \<and> m (hash (commits ! j)) = Some tj
          \<and> dt_tzinfo ti = tz cal \<and> dt_tzinfo tj = tz cal
          \<and> dt_wall ti \<le> dt_wall tj
          \<and> datetime_le ti tj
          \<and> (zone_monotone (tz cal) \<longrightarrow> utc_seconds ti \<le> utc_seconds tj)"
    using c mi mj zi zj le dle mono by blast
next
  fix g candidate end_day work sec_min sec_max z r g'
  assume a: "dt_tzinfo candidate = z
          \<and> next_valid_datetime R g candidate end_day work sec_min sec_max z = Inr (r, g')"
  then have nv: "next_valid_datetime R g candidate end_day work sec_min sec_max z = Inr (r, g')"
    and cz: "dt_tzinfo candidate = z"
    by simp_all
  note res = next_valid_datetime_result [OF nv cz]
  have same: "dt_tzinfo candidate = dt_tzinfo r" using res(2) cz by simp
  have mono: "zone_monotone z \<longrightarrow> utc_seconds candidate \<le> utc_seconds r"
    using utc_seconds_mono [OF _ same res(1)] cz by simp
  show "dt_tzinfo r = z \<and> dt_wall candidate \<le> dt_wall r \<and> datetime_le candidate r
          \<and> (zone_monotone z \<longrightarrow> utc_seconds candidate \<le> utc_seconds r)"
    using res(1,2) mono by (simp add: datetime_le_same [OF same])
qed

text \<open>
  Claim C5. For every non-empty list of commits and every validated synthetic
  configuration for which \<open>compute_timestamps\<close> succeeds, every selected commit has an
  entry in the result, and every instant of the result carries the calendar's zone, falls
  on a date whose work block is enabled, and has a time of day within that block's hours,
  from their start to the last second of their closing minute.
\<close>

theorem synthetic_outputs_in_window:
  assumes "validated_synthetic config" and "commits \<noteq> []"
    and "compute_timestamps R entropy commits config = Inr m"
  shows "\<exists>cal work.
            ValidatedConfig.calendar config = Some cal
          \<and> ValidatedConfig.work_patterns config = Some work
          \<and> (\<forall>c \<in> set commits. \<exists>t. m (hash c) = Some t)
          \<and> (\<forall>h t. m h = Some t \<longrightarrow> dt_tzinfo t = tz cal \<and> in_work_window work t)"
proof -
  have md: "mode (ValidatedConfig.timestamp config) = ''synthetic''"
    using assms(1) by (simp add: validated_synthetic_def)
  have sm: "synthetic_mode R entropy commits config = Inr m"
    using assms(3) by (simp add: compute_synthetic [OF md])
  from synthetic_mode_outputs [OF sm assms(2)] obtain cal work ts where
    sec: "ValidatedConfig.calendar config = Some cal"
         "ValidatedConfig.work_patterns config = Some work" and
    ts: "length ts = length commits" "m = Map.empty(map hash commits [\<mapsto>] ts)"
        "\<forall>t \<in> set ts. dt_tzinfo t = tz cal"
        "valid_work work \<longrightarrow> (\<forall>t \<in> set ts. in_work_window work t)"
    by blast
  have vw: "valid_work work"
    using assms(1) sec(2) by (simp add: validated_synthetic_def)
  have len: "length ts = length (map hash commits)" using ts(1) by simp
  have dom: "\<forall>c \<in> set commits. \<exists>t. m (hash c) = Some t"
  proof
    fix c assume "c \<in> set commits"
    then have "hash c \<in> set (map hash commits)" by simp
    from map_upds_lookup_in [OF len this, of Map.empty]
    show "\<exists>t. m (hash c) = Some t" using ts(2) by blast
  qed
  have ran: "\<forall>h t. m h = Some t \<longrightarrow> dt_tzinfo t = tz cal \<and> in_work_window work t"
  proof (intro allI impI)
    fix h t assume "m h = Some t"
    then have "t \<in> set ts"
      using map_upds_empty_value [OF len, of h t] ts(2) by simp
    then show "dt_tzinfo t = tz cal \<and> in_work_window work t"
      using ts(3,4) vw by simp
  qed
  show ?thesis using sec dom ran by blast
qed


subsection \<open>Exhaustion of the calendar\<close>

lemma next_enabled_day_exhausted:
  assumes "\<forall>d. day \<le> d \<and> d \<le> end_day \<longrightarrow> \<not> enabled (work_block_for_day d work)"
    and "0 \<le> day" and "end_day < date_max"
  shows "next_enabled_day day end_day work
           = Inl (EngineError ''Synthetic calendar window exhausted'')"
  using assms
proof (induction day end_day work rule: next_enabled_day.induct)
  case (1 day end_day work)
  show ?case
  proof (cases "day \<le> end_day")
    case False
    then show ?thesis by (subst next_enabled_day.simps) simp
  next
    case True
    have dis: "\<not> enabled (work_block_for_day day work)" using "1.prems"(1) True by simp
    have ok: "date_add_days day 1 = Inr (day + 1)"
      using True "1.prems"(2,3) by (simp add: date_add_days_def)
    have "next_enabled_day (day + 1) end_day work
            = Inl (EngineError ''Synthetic calendar window exhausted'')"
      using "1.IH" [OF True dis ok] "1.prems" by simp
    then show ?thesis
      using True dis ok by (subst next_enabled_day.simps) simp
  qed
qed


text \<open>
  Claim C6, as the code has it. For every non-empty list of commits and every
  configuration in synthetic mode with its three sections, whose calendar starts at a
  date and ends before \<open>date_max\<close>: if no date from the start to the end of the calendar
  has an enabled work block, \<open>compute_timestamps\<close> fails with the engine error
  ``Synthetic calendar window exhausted''.
\<close>

theorem synthetic_exhausted:
  assumes "mode (ValidatedConfig.timestamp config) = ''synthetic''"
    and "ValidatedConfig.calendar config = Some cal"
    and "ValidatedConfig.work_patterns config = Some work"
    and "ValidatedConfig.randomness config = Some rnd"
    and "commits \<noteq> []"
    and "1 \<le> cal_start cal" and "cal_end cal < date_max"
    and "\<forall>d. cal_start cal \<le> d \<and> d \<le> cal_end cal \<longrightarrow> \<not> enabled (work_block_for_day d work)"
  shows "compute_timestamps R entropy commits config
           = Inl (EngineError ''Synthetic calendar window exhausted'')"
proof -
  have "next_enabled_day (cal_start cal) (cal_end cal) work
          = Inl (EngineError ''Synthetic calendar window exhausted'')"
    using assms(6,7,8) by (intro next_enabled_day_exhausted) simp_all
  then show ?thesis
    using assms(1-5) by (simp add: compute_timestamps_def synthetic_mode_def Let_def)
qed

section \<open>The scenario of the specification\<close>

lemma sample_random_in_range: "draws_in_range sample_random"
proof -
  have "a \<le> a + g mod (b - a + 1) \<and> a + g mod (b - a + 1) \<le> b" if "a \<le> b" for a b g :: int
  proof -
    have "0 < b - a + 1" using that by simp
    then have "0 \<le> g mod (b - a + 1)" "g mod (b - a + 1) < b - a + 1"
      by (simp_all only: pos_mod_sign pos_mod_bound)
    then show ?thesis by linarith
  qed
  then show ?thesis by (simp add: draws_in_range_def sample_random_def)
qed

lemma sample_config_validated: "validated_synthetic sample_config"
  by code_simp

lemma saturday_config_validated: "validated_synthetic saturday_config"
  by code_simp

lemma sample_history_length: "length (sample_history n) = n"
  by (simp add: sample_history_def)

lemma sample_run_succeeds:
  "\<not> isl (compute_timestamps sample_random 0 (sample_history 3) sample_config)"
  by code_simp

lemma sample_run_values:
  "(case compute_timestamps sample_random 0 (sample_history 3) sample_config of
      Inl e \<Rightarrow> []
    | Inr m \<Rightarrow> map (\<lambda>c. map_option dt_wall (m (hash c))) (sample_history 3))
   = [Some 63839782853, Some 63839787039, Some 63839790981]"
  by code_simp

lemma sample_advance:
  "next_valid_datetime sample_random 1 \<lparr>dt_wall = 63839815200, dt_tzinfo = UTC\<rparr>
     738890 sample_work 5 55 UTC
   = Inr (\<lparr>dt_wall = 63839869250, dt_tzinfo = UTC\<rparr>, 377401575)"
  by code_simp

text \<open>
  The theorems on the synthetic timeline at the scenario of the specification, with three
  commits of the sample history.
\<close>

theorem synthetic_non_decreasing_witness:
  "draws_in_range sample_random \<and> validated_synthetic sample_config
   \<and> distinct (map hash (sample_history 3))
   \<and> zone_monotone UTC
   \<and> (\<exists>m ti tj. compute_timestamps sample_random 0 (sample_history 3) sample_config = Inr m
          \<and> m (hash (sample_history 3 ! 0)) = Some ti
          \<and> m (hash (sample_history 3 ! 2)) = Some tj
          \<and> dt_tzinfo ti = UTC \<and> dt_tzinfo tj = UTC
          \<and> dt_wall ti \<le> dt_wall tj
          \<and> datetime_le ti tj
          \<and> utc_seconds ti \<le> utc_seconds tj)
   \<and> dt_tzinfo \<lparr>dt_wall = 63839815200, dt_tzinfo = UTC\<rparr> = UTC
   \<and> next_valid_datetime sample_random 1 \<lparr>dt_wall = 63839815200, dt_tzinfo = UTC\<rparr>
       738890 sample_work 5 55 UTC
     = Inr (\<lparr>dt_wall = 63839869250, dt_tzinfo = UTC\<rparr>, 377401575)
   \<and> datetime_le \<lparr>dt_wall = 63839815200, dt_tzinfo = UTC\<rparr>
       \<lparr>dt_wall = 63839869250, dt_tzinfo = UTC\<rparr>
   \<and> utc_seconds \<lparr>dt_wall = 63839815200, dt_tzinfo = UTC\<rparr>
       \<le> utc_seconds \<lparr>dt_wall = 63839869250, dt_tzinfo = UTC\<rparr>"
proof -
  obtain m where m: "compute_timestamps sample_random 0 (sample_history 3) sample_config = Inr m"
    using sample_run_succeeds
    by (cases "compute_timestamps sample_random 0 (sample_history 3) sample_config") auto
  note t = synthetic_non_decreasing [OF sample_random_in_range sample_config_validated, of 0]
  have h1: "distinct (map hash (sample_history 3))
          \<and> compute_timestamps sample_random 0 (sample_history 3) sample_config = Inr m
          \<and> (0::nat) \<le> 2 \<and> 2 < length (sample_history 3)"
    using m sample_history_distinct [of 3] by (simp add: sample_history_length)
  have cal: "ValidatedConfig.calendar sample_config = Some sample_calendar"
    by (simp add: sample_config_def)
  have z: "tz sample_calendar = UTC"
    by (simp add: sample_calendar_def)
  from t [THEN conjunct1, rule_format, OF h1] obtain c ti tj where
    o: "ValidatedConfig.calendar sample_config = Some c"
       "m (hash (sample_history 3 ! 0)) = Some ti" "m (hash (sample_history 3 ! 2)) = Some tj"
       "dt_tzinfo ti = tz c" "dt_tzinfo tj = tz c" "dt_wall ti \<le> dt_wall tj"
       "datetime_le ti tj" "zone_monotone (tz c) \<longrightarrow> utc_seconds ti \<le> utc_seconds tj"
    by blast
  have c: "c = sample_calendar" using o(1) cal by simp
  have a: "\<exists>m ti tj. compute_timestamps sample_random 0 (sample_history 3) sample_config = Inr m
          \<and> m (hash (sample_history 3 ! 0)) = Some ti
          \<and> m (hash (sample_history 3 ! 2)) = Some tj
          \<and> dt_tzinfo ti = UTC \<and> dt_tzinfo tj = UTC
          \<and> dt_wall ti \<le> dt_wall tj
          \<and> datetime_le ti tj
          \<and> utc_seconds ti \<le> utc_seconds tj"
    using m o(2-8) zone_monotone_UTC unfolding c z by blast
  have h2: "dt_tzinfo \<lparr>dt_wall = 63839815200, dt_tzinfo = UTC\<rparr> = UTC
          \<and> next_valid_datetime sample_random 1 \<lparr>dt_wall = 63839815200, dt_tzinfo = UTC\<rparr>
               738890 sample_work 5 55 UTC
             = Inr (\<lparr>dt_wall = 63839869250, dt_tzinfo = UTC\<rparr>, 377401575)"
    using sample_advance by simp
  have b: "datetime_le \<lparr>dt_wall = 63839815200, dt_tzinfo = UTC\<rparr>
             \<lparr>dt_wall = 63839869250, dt_tzinfo = UTC\<rparr>
         \<and> utc_seconds \<lparr>dt_wall = 63839815200, dt_tzinfo = UTC\<rparr>
             \<le> utc_seconds \<lparr>dt_wall = 63839869250, dt_tzinfo = UTC\<rparr>"
    using t [THEN conjunct2, rule_format, OF h2] zone_monotone_UTC by blast
  show ?thesis
    using sample_random_in_range sample_config_validated sample_history_distinct [of 3]
      zone_monotone_UTC a h2 b
    by blast
qed

lemma lowest_random_in_range: "draws_in_range lowest_random"
  by (simp add: draws_in_range_def lowest_random_def)

lemma london_validates:
  "validate_config sample_pylib
     (raw_config ''synthetic'' (Some london_calendar_raw) (Some london_work_raw)
        (Some london_randomness_raw))
   = Inr london_config"
  by code_simp

lemma london_config_validated: "validated_synthetic london_config"
  by code_simp

lemma london_run_values:
  "(case compute_timestamps lowest_random 0 (sample_history 2) london_config of
      Inl e \<Rightarrow> []
    | Inr m \<Rightarrow> map (\<lambda>c. map_option (\<lambda>t. (dt_wall t, utc_seconds t, dt_tzinfo t = london))
                        (m (hash c))) (sample_history 2))
   = [Some (63847531800, 63847531800, True), Some (63847534200, 63847530600, True)]"
  by code_simp

text \<open>
  Read as instants, the order fails across the start of summer time. In London on
  2024-03-31, with work from 01:30 to 03:00 and a gap of 40 minutes, the first commit gets
  01:30:00, a reading the clocks skip, which Python places at 01:30 UTC; the second gets
  02:10:00, which is 01:10 UTC. The readings increase and the instants, which are what the
  rewrite writes into the commits, go back by twenty minutes. Validation accepts this
  configuration, and the generator draws within its bounds.
\<close>

theorem synthetic_instants_counterexample:
  "validate_config sample_pylib
     (raw_config ''synthetic'' (Some london_calendar_raw) (Some london_work_raw)
        (Some london_randomness_raw))
   = Inr london_config
   \<and> validated_synthetic london_config
   \<and> draws_in_range lowest_random
   \<and> sample_history 2 \<noteq> []
   \<and> distinct (map hash (sample_history 2))
   \<and> (\<exists>m ti tj. compute_timestamps lowest_random 0 (sample_history 2) london_config = Inr m
          \<and> m (hash (sample_history 2 ! 0)) = Some ti
          \<and> m (hash (sample_history 2 ! 1)) = Some tj
          \<and> dt_tzinfo ti = london \<and> dt_tzinfo tj = london
          \<and> dt_wall ti = 63847531800 \<and> dt_wall tj = 63847534200
          \<and> utc_seconds ti = 63847531800 \<and> utc_seconds tj = 63847530600
          \<and> utc_seconds tj < utc_seconds ti)"
proof -
  have ne: "sample_history 2 \<noteq> []"
    using sample_history_length [of 2] by auto
  obtain m where m: "compute_timestamps lowest_random 0 (sample_history 2) london_config = Inr m"
    using london_run_values
    by (cases "compute_timestamps lowest_random 0 (sample_history 2) london_config") auto
  have vals: "map (\<lambda>c. map_option (\<lambda>t. (dt_wall t, utc_seconds t, dt_tzinfo t = london))
                        (m (hash c))) (sample_history 2)
                = [Some (63847531800, 63847531800, True), Some (63847534200, 63847530600, True)]"
    using london_run_values by (simp add: m)
  have e0: "map_option (\<lambda>t. (dt_wall t, utc_seconds t, dt_tzinfo t = london))
              (m (hash (sample_history 2 ! 0))) = Some (63847531800, 63847531800, True)"
    using arg_cong [OF vals, of "\<lambda>xs. xs ! 0"] by (simp add: sample_history_length)
  have e1: "map_option (\<lambda>t. (dt_wall t, utc_seconds t, dt_tzinfo t = london))
              (m (hash (sample_history 2 ! 1))) = Some (63847534200, 63847530600, True)"
    using arg_cong [OF vals, of "\<lambda>xs. xs ! 1"] by (simp add: sample_history_length)
  from e0 obtain ti where
    i: "m (hash (sample_history 2 ! 0)) = Some ti" "dt_wall ti = 63847531800"
       "utc_seconds ti = 63847531800" "dt_tzinfo ti = london"
    by auto
  from e1 obtain tj where
    j: "m (hash (sample_history 2 ! 1)) = Some tj" "dt_wall tj = 63847534200"
       "utc_seconds tj = 63847530600" "dt_tzinfo tj = london"
    by auto
  have "utc_seconds tj < utc_seconds ti" using i j by simp
  then show ?thesis
    using london_validates london_config_validated lowest_random_in_range ne
      sample_history_distinct [of 2] m i j
    by blast
qed

text \<open>
  The advance step is given candidates that carry the calendar's zone. For a candidate of
  another zone it compares instants with the bounds of the window but takes the day from
  the candidate's own clock: 23:30 on Monday 2024-01-01 at twelve hours behind UTC is
  11:30 UTC on Tuesday, past Monday's window, and the step answers with a time picked on
  Tuesday from 09:00 UTC, which is earlier than the candidate. A candidate of another
  zone whose instant lies in the window of its own day comes back as it is: 08:30 on
  Tuesday at one hour behind UTC is 09:30 UTC.
\<close>

lemma foreign_candidate_moves_back:
  "next_valid_datetime lowest_random 0
     \<lparr>dt_wall = 63839835000, dt_tzinfo = FixedOffset (- 43200)\<rparr> 738890 sample_work 5 55 UTC
   = Inr (\<lparr>dt_wall = 63839869205, dt_tzinfo = UTC\<rparr>, 0)
   \<and> datetime_less \<lparr>dt_wall = 63839869205, dt_tzinfo = UTC\<rparr>
       \<lparr>dt_wall = 63839835000, dt_tzinfo = FixedOffset (- 43200)\<rparr>"
  by code_simp

lemma foreign_candidate_in_window:
  "next_valid_datetime lowest_random 0
     \<lparr>dt_wall = 63839867400, dt_tzinfo = FixedOffset (- 3600)\<rparr> 738890 sample_work 5 55 UTC
   = Inr (\<lparr>dt_wall = 63839867400, dt_tzinfo = FixedOffset (- 3600)\<rparr>, 0)"
  by code_simp

lemma london_not_monotone: "\<not> zone_monotone london"
proof
  assume "zone_monotone london"
  then have "\<forall>w w'. w \<le> w' \<longrightarrow> w - tz_offset london w \<le> w' - tz_offset london w'"
    by (simp add: zone_monotone_def)
  from this [rule_format, of 63847531800 63847534200] show False
    by (simp add: london_def)
qed

theorem synthetic_outputs_in_window_witness:
  "validated_synthetic sample_config \<and> sample_history 3 \<noteq> []
   \<and> (\<exists>m t. compute_timestamps sample_random 0 (sample_history 3) sample_config = Inr m
          \<and> m (hash (sample_commit 1)) = Some t
          \<and> dt_tzinfo t = UTC \<and> in_work_window sample_work t)"
proof -
  obtain m where m: "compute_timestamps sample_random 0 (sample_history 3) sample_config = Inr m"
    using sample_run_succeeds
    by (cases "compute_timestamps sample_random 0 (sample_history 3) sample_config") auto
  have ne: "sample_history 3 \<noteq> []"
    using sample_history_length [of 3] by auto
  have c: "sample_commit 1 \<in> set (sample_history 3)"
    by (simp add: sample_history_def)
  from synthetic_outputs_in_window [OF sample_config_validated ne m] c
  obtain t where "m (hash (sample_commit 1)) = Some t"
     "dt_tzinfo t = UTC" "in_work_window sample_work t"
    by (auto simp: sample_config_def sample_calendar_def)
  then show ?thesis using sample_config_validated ne m by blast
qed

lemma saturday_week_disabled:
  "\<forall>d. cal_start sample_calendar \<le> d \<and> d \<le> cal_end sample_calendar
       \<longrightarrow> \<not> enabled (work_block_for_day d saturday_work)"
proof (intro allI impI)
  fix d :: int
  assume "cal_start sample_calendar \<le> d \<and> d \<le> cal_end sample_calendar"
  then have "738886 \<le> d" "d \<le> 738890" by (simp_all add: sample_calendar_def)
  then have "d = 738886 \<or> d = 738887 \<or> d = 738888 \<or> d = 738889 \<or> d = 738890" by arith
  then have "weekday d \<le> 4" by (auto simp: weekday_def)
  then show "\<not> enabled (work_block_for_day d saturday_work)"
    by (simp add: work_block_for_day_def saturday_work_def)
qed

theorem synthetic_exhausted_witness:
  "mode (ValidatedConfig.timestamp saturday_config) = ''synthetic''
   \<and> ValidatedConfig.calendar saturday_config = Some sample_calendar
   \<and> ValidatedConfig.work_patterns saturday_config = Some saturday_work
   \<and> ValidatedConfig.randomness saturday_config = Some sample_randomness
   \<and> sample_history 2 \<noteq> []
   \<and> 1 \<le> cal_start sample_calendar \<and> cal_end sample_calendar < date_max
   \<and> list_all (\<lambda>d. \<not> enabled (work_block_for_day d saturday_work))
        [738886, 738887, 738888, 738889, 738890]
   \<and> compute_timestamps sample_random 0 (sample_history 2) saturday_config
       = Inl (EngineError ''Synthetic calendar window exhausted'')"
proof -
  have h1: "mode (ValidatedConfig.timestamp saturday_config) = ''synthetic''"
    and h2: "ValidatedConfig.calendar saturday_config = Some sample_calendar"
    and h3: "ValidatedConfig.work_patterns saturday_config = Some saturday_work"
    and h4: "ValidatedConfig.randomness saturday_config = Some sample_randomness"
    by (simp_all add: saturday_config_def)
  have h5: "sample_history 2 \<noteq> []"
    using sample_history_length [of 2] by auto
  have h6: "1 \<le> cal_start sample_calendar" and h7: "cal_end sample_calendar < date_max"
    by (simp_all add: sample_calendar_def date_max_def)
  have l: "list_all (\<lambda>d. \<not> enabled (work_block_for_day d saturday_work))
        [738886, 738887, 738888, 738889, 738890]"
    using saturday_week_disabled by (simp add: sample_calendar_def)
  show ?thesis
    using h1 h2 h3 h4 h5 h6 h7 l
      synthetic_exhausted [OF h1 h2 h3 h4 h5 h6 h7 saturday_week_disabled, of sample_random 0]
    by blast
qed

text \<open>
  Stated for every list of selected commits, exhaustion fails at the empty list: the week
  has no enabled date, and \<open>compute_timestamps\<close> returns the empty map.
\<close>

theorem synthetic_exhausted_counterexample:
  "validated_synthetic saturday_config
   \<and> ValidatedConfig.calendar saturday_config = Some sample_calendar
   \<and> ValidatedConfig.work_patterns saturday_config = Some saturday_work
   \<and> cal_start sample_calendar = 738886 \<and> cal_end sample_calendar = 738890
   \<and> list_all (\<lambda>d. \<not> enabled (work_block_for_day d saturday_work))
        [738886, 738887, 738888, 738889, 738890]
   \<and> compute_timestamps sample_random 0 [] saturday_config = Inr Map.empty"
proof -
  have l: "list_all (\<lambda>d. \<not> enabled (work_block_for_day d saturday_work))
        [738886, 738887, 738888, 738889, 738890]"
    using saturday_week_disabled by (simp add: sample_calendar_def)
  have "compute_timestamps sample_random 0 [] saturday_config = Inr Map.empty"
    by (simp add: compute_timestamps_def synthetic_mode_def saturday_config_def)
  then show ?thesis
    using l saturday_config_validated
    by (simp add: saturday_config_def sample_calendar_def)
qed

text \<open>
  When the calendar ends at \<open>date_max\<close>, the scan for an enabled date steps past the last
  date Python can represent and \<^verbatim>\<open>day + timedelta(days=1)\<close> raises \<open>OverflowError\<close>
  before the loop can report exhaustion.
\<close>

lemma year_end_overflow:
  "(case compute_timestamps sample_random 0 (sample_history 2) year_end_config of
      Inl e \<Rightarrow> e = OverflowError
    | Inr m \<Rightarrow> False)"
  by code_simp

theorem compute_timestamps_seeded_witness:
  "ValidatedConfig.randomness sample_config = Some sample_randomness
   \<and> seed sample_randomness = Some 42
   \<and> compute_timestamps sample_random 7 (sample_history 3) sample_config
       = compute_timestamps sample_random 99 (sample_history 3) sample_config
   \<and> \<not> isl (compute_timestamps sample_random 7 (sample_history 3) sample_config)"
proof -
  have h1: "ValidatedConfig.randomness sample_config = Some sample_randomness"
    by (simp add: sample_config_def)
  have h2: "seed sample_randomness = Some 42"
    by (simp add: sample_randomness_def)
  have "\<not> isl (compute_timestamps sample_random 7 (sample_history 3) sample_config)"
    using sample_run_succeeds
      compute_timestamps_seeded [OF h1 h2, of sample_random 7 "sample_history 3" 0]
    by simp
  then show ?thesis
    using h1 h2
      compute_timestamps_seeded [OF h1 h2, of sample_random 7 "sample_history 3" 99]
    by blast
qed

text \<open>
  The order of the timeline is not strict: with gaps of zero minutes and zero seconds two
  commits receive the same instant. And the seed matters: without one, two generators
  give two timelines.
\<close>

lemma zero_gap_repeats_instant:
  "validated_synthetic zero_gap_config
   \<and> (case compute_timestamps sample_random 0 (sample_history 2) zero_gap_config of
        Inl e \<Rightarrow> []
      | Inr m \<Rightarrow> map (\<lambda>c. map_option dt_wall (m (hash c))) (sample_history 2))
     = [Some 63839782800, Some 63839782800]"
  by code_simp

lemma unseeded_depends_on_entropy:
  "(case compute_timestamps sample_random 7 (sample_history 2) unseeded_config of
      Inl e \<Rightarrow> []
    | Inr m \<Rightarrow> map (\<lambda>c. map_option dt_wall (m (hash c))) (sample_history 2))
   = [Some 63839782820, Some 63839787065]
   \<and> (case compute_timestamps sample_random 99 (sample_history 2) unseeded_config of
        Inl e \<Rightarrow> []
      | Inr m \<Rightarrow> map (\<lambda>c. map_option dt_wall (m (hash c))) (sample_history 2))
     = [Some 63839782870, Some 63839786882]"
  by code_simp

end
